theory Spec2Isabelle
  imports Complex_Main "HOL-Library.Multiset"
begin

section \<open>Helpdesk analytics: ticket ingestion and metrics (utils.ts, Dashboard.tsx)\<close>

text \<open>
  A shallow embedding of the ingestion and metrics code of the dashboard:
  \<^verbatim>\<open>parseCustomDate\<close>, \<^verbatim>\<open>parseRawData\<close> and \<^verbatim>\<open>calculateAgentMetrics\<close> of the utilities
  module, and \<^verbatim>\<open>getPctDiff\<close> / \<^verbatim>\<open>formatTrend\<close> of the Dashboard component.

  Conventions of the model.
  \<^item> A JavaScript string is a \<^typ>\<open>string\<close>; a character stands for the code unit of the same
    number, so the model covers strings of code units below 256.
  \<^item> A JavaScript number is a \<open>jsnum\<close>: \<open>NaN\<close>, the two infinities, or an exact rational.
    The rounding of IEEE-754 binary64 arithmetic is not modelled, and \<open>-0\<close> is identified
    with \<open>0\<close> (the code never distinguishes them: \<^verbatim>\<open>-0 || 0\<close> and \<^verbatim>\<open>Math.max(0, -0)\<close> are \<open>0\<close>).
  \<^item> A \<^verbatim>\<open>Date\<close> is its time value: \<open>Some t\<close> for \<open>t\<close> milliseconds since the epoch,
    \<open>None\<close> for the invalid date (time value \<open>NaN\<close>).
  \<^item> Built-ins whose result depends on the engine or on the machine (\<^verbatim>\<open>Date.parse\<close>, the local
    time zone, \<^verbatim>\<open>JSON.parse\<close>, \<^verbatim>\<open>Math.random\<close>, the string forms of fractional numbers and
    of dates) are fields of an environment record \<open>env\<close>; the theorems hold for every
    environment.
  \<^item> An exception is a value: functions that can throw return \<open>error + 'a\<close>.
\<close>

subsection \<open>Strings\<close>

definition whiteSpaceChars :: "char list" where
  "whiteSpaceChars = [CHR 0x09, CHR 0x0A, CHR 0x0B, CHR 0x0C, CHR 0x0D, CHR '' '', CHR 0xA0]"

definition isWhiteSpace :: "char \<Rightarrow> bool" where
  \<comment> \<open>WhiteSpace and LineTerminator code units below 256\<close>
  "isWhiteSpace c = (c \<in> set whiteSpaceChars)"

definition trimStart :: "string \<Rightarrow> string" where
  "trimStart s = dropWhile isWhiteSpace s"

definition trim :: "string \<Rightarrow> string" where
  \<comment> \<open>\<^verbatim>\<open>String.prototype.trim\<close>\<close>
  "trim s = rev (dropWhile isWhiteSpace (rev (dropWhile isWhiteSpace s)))"

definition lowerTable :: "(char \<times> char) list" where
  "lowerTable =
     zip ''ABCDEFGHIJKLMNOPQRSTUVWXYZ'' ''abcdefghijklmnopqrstuvwxyz'' @
     zip [CHR 0xC0, CHR 0xC1, CHR 0xC2, CHR 0xC3, CHR 0xC4, CHR 0xC5, CHR 0xC6, CHR 0xC7,
          CHR 0xC8, CHR 0xC9, CHR 0xCA, CHR 0xCB, CHR 0xCC, CHR 0xCD, CHR 0xCE, CHR 0xCF,
          CHR 0xD0, CHR 0xD1, CHR 0xD2, CHR 0xD3, CHR 0xD4, CHR 0xD5, CHR 0xD6,
          CHR 0xD8, CHR 0xD9, CHR 0xDA, CHR 0xDB, CHR 0xDC, CHR 0xDD, CHR 0xDE]
         [CHR 0xE0, CHR 0xE1, CHR 0xE2, CHR 0xE3, CHR 0xE4, CHR 0xE5, CHR 0xE6, CHR 0xE7,
          CHR 0xE8, CHR 0xE9, CHR 0xEA, CHR 0xEB, CHR 0xEC, CHR 0xED, CHR 0xEE, CHR 0xEF,
          CHR 0xF0, CHR 0xF1, CHR 0xF2, CHR 0xF3, CHR 0xF4, CHR 0xF5, CHR 0xF6,
          CHR 0xF8, CHR 0xF9, CHR 0xFA, CHR 0xFB, CHR 0xFC, CHR 0xFD, CHR 0xFE]"

definition toLowerCaseChar :: "char \<Rightarrow> char" where
  "toLowerCaseChar c = (case map_of lowerTable c of Some d \<Rightarrow> d | None \<Rightarrow> c)"

definition toLowerCase :: "string \<Rightarrow> string" where
  \<comment> \<open>\<^verbatim>\<open>String.prototype.toLowerCase\<close> on code units below 256\<close>
  "toLowerCase s = map toLowerCaseChar s"

fun split_on :: "char \<Rightarrow> string \<Rightarrow> string list" where
  \<comment> \<open>\<^verbatim>\<open>s.split(c)\<close> for a one-character separator: never the empty list\<close>
  "split_on c [] = [[]]"
| "split_on c (x # xs) =
     (if x = c then [] # split_on c xs
      else (case split_on c xs of [] \<Rightarrow> [[x]] | p # ps \<Rightarrow> (x # p) # ps))"

definition replaceAll :: "char \<Rightarrow> char \<Rightarrow> string \<Rightarrow> string" where
  \<comment> \<open>\<^verbatim>\<open>s.replace(/a/g, b)\<close> for single characters\<close>
  "replaceAll a b s = map (\<lambda>c. if c = a then b else c) s"

definition startsWith :: "string \<Rightarrow> char \<Rightarrow> bool" where
  "startsWith s c = (case s of [] \<Rightarrow> False | x # _ \<Rightarrow> x = c)"

definition endsWith :: "string \<Rightarrow> char \<Rightarrow> bool" where
  "endsWith s c = (case rev s of [] \<Rightarrow> False | x # _ \<Rightarrow> x = c)"

fun join_with :: "string \<Rightarrow> string list \<Rightarrow> string" where
  \<comment> \<open>\<^verbatim>\<open>Array.prototype.join\<close> on elements that are strings already\<close>
  "join_with sep [] = []"
| "join_with sep [x] = x"
| "join_with sep (x # y # ys) = x @ sep @ join_with sep (y # ys)"

subsection \<open>Numbers\<close>

datatype jsnum = NaN | Fin rat | PInf | NInf

definition truthy_num :: "jsnum \<Rightarrow> bool" where
  "truthy_num n = (n \<noteq> NaN \<and> n \<noteq> Fin 0)"

definition digitChars :: "char list" where
  "digitChars = ''0123456789''"

definition isDigit :: "char \<Rightarrow> bool" where
  "isDigit c = (c \<in> set digitChars)"

fun index_of :: "'a \<Rightarrow> 'a list \<Rightarrow> nat" where
  "index_of c [] = 0"
| "index_of c (x # xs) = (if x = c then 0 else Suc (index_of c xs))"

definition digitVal :: "char \<Rightarrow> nat" where
  "digitVal c = index_of c digitChars"

definition digitStep :: "nat \<Rightarrow> char \<Rightarrow> nat" where
  "digitStep acc c = 10 * acc + digitVal c"

definition digitsVal :: "string \<Rightarrow> nat" where
  \<comment> \<open>the value of a string of decimal digits; the empty string counts 0\<close>
  "digitsVal ds = foldl digitStep 0 ds"

fun show_nat :: "nat \<Rightarrow> string" where
  \<comment> \<open>the decimal digits of a natural number\<close>
  "show_nat n =
     (if n < 10 then [digitChars ! n] else show_nat (n div 10) @ [digitChars ! (n mod 10)])"

declare show_nat.simps [simp del]

definition hexChars :: "char list" where
  "hexChars = ''0123456789abcdef''"

definition isHexDigit :: "char \<Rightarrow> bool" where
  "isHexDigit c = (toLowerCaseChar c \<in> set hexChars)"

definition hexVal :: "string \<Rightarrow> nat" where
  "hexVal ds = foldl (\<lambda>acc c. 16 * acc + index_of (toLowerCaseChar c) hexChars) 0 ds"

definition parseInt :: "string \<Rightarrow> int option" where
  \<comment> \<open>\<^verbatim>\<open>parseInt(s)\<close> with no radix; \<open>None\<close> is \<open>NaN\<close>\<close>
  "parseInt s =
     (let s1 = trimStart s;
          neg = startsWith s1 CHR ''-'';
          s2 = (if neg \<or> startsWith s1 CHR ''+'' then tl s1 else s1)
      in if take 2 s2 = ''0x'' \<or> take 2 s2 = ''0X'' then
           (let z = takeWhile isHexDigit (drop 2 s2)
            in if z = [] then None
               else Some (if neg then - int (hexVal z) else int (hexVal z)))
         else
           (let z = takeWhile isDigit s2
            in if z = [] then None
               else Some (if neg then - int (digitsVal z) else int (digitsVal z))))"

definition exponentPart :: "string \<Rightarrow> int" where
  \<comment> \<open>the value of an ExponentPart at the head of the string, 0 when there is none\<close>
  "exponentPart r =
     (if startsWith r CHR ''e'' \<or> startsWith r CHR ''E'' then
        (let r3 = tl r;
             eneg = startsWith r3 CHR ''-'';
             r4 = (if eneg \<or> startsWith r3 CHR ''+'' then tl r3 else r3);
             ed = takeWhile isDigit r4
         in if ed = [] then 0
            else if eneg then - int (digitsVal ed) else int (digitsVal ed))
      else 0)"

definition parseUnsigned :: "bool \<Rightarrow> string \<Rightarrow> jsnum" where
  \<comment> \<open>the longest prefix that is an unsigned decimal literal (digits, a fraction, an
     exponent), negated when \<open>neg\<close>; \<open>NaN\<close> when no prefix is one\<close>
  "parseUnsigned neg s2 =
     (let ip = takeWhile isDigit s2;
          r1 = dropWhile isDigit s2;
          dot = startsWith r1 CHR ''.'';
          fp = (if dot then takeWhile isDigit (tl r1) else []);
          r2 = (if dot then dropWhile isDigit (tl r1) else r1)
      in if ip = [] \<and> fp = [] then NaN
         else
           (let ex = exponentPart r2;
                m = of_nat (digitsVal ip) + of_nat (digitsVal fp) / 10 ^ length fp;
                v = (if 0 \<le> ex then m * 10 ^ nat ex else m / 10 ^ nat (- ex))
            in Fin (if neg then - v else v)))"

definition parseFloat :: "string \<Rightarrow> jsnum" where
  \<comment> \<open>\<^verbatim>\<open>parseFloat(s)\<close>: the longest prefix that is a StrDecimalLiteral\<close>
  "parseFloat s =
     (let s1 = trimStart s;
          neg = startsWith s1 CHR ''-'';
          s2 = (if neg \<or> startsWith s1 CHR ''+'' then tl s1 else s1)
      in if take 8 s2 = ''Infinity'' then (if neg then NInf else PInf)
         else parseUnsigned neg s2)"

fun js_neg :: "jsnum \<Rightarrow> jsnum" where
  "js_neg NaN = NaN"
| "js_neg (Fin a) = Fin (- a)"
| "js_neg PInf = NInf"
| "js_neg NInf = PInf"

fun js_add :: "jsnum \<Rightarrow> jsnum \<Rightarrow> jsnum" where
  "js_add NaN _ = NaN"
| "js_add _ NaN = NaN"
| "js_add (Fin a) (Fin b) = Fin (a + b)"
| "js_add PInf NInf = NaN"
| "js_add NInf PInf = NaN"
| "js_add PInf _ = PInf"
| "js_add NInf _ = NInf"
| "js_add (Fin a) b = b"

definition js_sub :: "jsnum \<Rightarrow> jsnum \<Rightarrow> jsnum" where
  "js_sub a b = js_add a (js_neg b)"

fun js_sign :: "jsnum \<Rightarrow> int" where
  \<comment> \<open>-1, 0 or 1; a zero counts as \<open>+0\<close> where its sign would matter\<close>
  "js_sign NaN = 0"
| "js_sign (Fin a) = (if a < 0 then - 1 else if a = 0 then 0 else 1)"
| "js_sign PInf = 1"
| "js_sign NInf = - 1"

definition js_inf :: "int \<Rightarrow> jsnum" where
  "js_inf s = (if s = 0 then NaN else if s < 0 then NInf else PInf)"

fun js_mul :: "jsnum \<Rightarrow> jsnum \<Rightarrow> jsnum" where
  "js_mul NaN _ = NaN"
| "js_mul _ NaN = NaN"
| "js_mul (Fin a) (Fin b) = Fin (a * b)"
| "js_mul a b = js_inf (js_sign a * js_sign b)"

fun js_div :: "jsnum \<Rightarrow> jsnum \<Rightarrow> jsnum" where
  "js_div NaN _ = NaN"
| "js_div _ NaN = NaN"
| "js_div (Fin a) (Fin b) = (if b = 0 then js_inf (js_sign (Fin a)) else Fin (a / b))"
| "js_div (Fin a) _ = Fin 0"
| "js_div a (Fin b) = js_inf (js_sign a * (if b < 0 then - 1 else 1))"
| "js_div _ _ = NaN"

fun js_gt :: "jsnum \<Rightarrow> jsnum \<Rightarrow> bool" where
  \<comment> \<open>\<^verbatim>\<open>a > b\<close>\<close>
  "js_gt NaN _ = False"
| "js_gt _ NaN = False"
| "js_gt (Fin a) (Fin b) = (b < a)"
| "js_gt PInf b = (b \<noteq> PInf)"
| "js_gt NInf _ = False"
| "js_gt (Fin a) b = (b = NInf)"

fun Math_max :: "jsnum \<Rightarrow> jsnum \<Rightarrow> jsnum" where
  \<comment> \<open>\<^verbatim>\<open>Math.max(a, b)\<close>\<close>
  "Math_max NaN _ = NaN"
| "Math_max _ NaN = NaN"
| "Math_max a b = (if js_gt b a then b else a)"

subsection \<open>Values, rows and the environment\<close>

text \<open>
  A cell of a raw row: what the spreadsheet reader delivers (a string, a number, a boolean,
  a \<^verbatim>\<open>Date\<close>), \<^verbatim>\<open>undefined\<close> for a missing column, \<^verbatim>\<open>null\<close>, or an array of cells, which
  \<^verbatim>\<open>parseRawData\<close> accepts for \<^verbatim>\<open>Assign\<close>.
\<close>

datatype cell =
    CUndefined
  | CNull
  | CBool bool
  | CNum jsnum
  | CStr string
  | CDate "int option"
  | CArr "cell list"

text \<open>A value returned by \<^verbatim>\<open>JSON.parse\<close>.\<close>

datatype json =
    JNull
  | JBool bool
  | JNum jsnum
  | JStr string
  | JArr "json list"
  | JObj "(string \<times> json) list"

datatype error = TypeError

record env =
  dateParse :: "string \<Rightarrow> int option"
    \<comment> \<open>\<^verbatim>\<open>Date.parse\<close>: the time value, \<open>None\<close> for \<open>NaN\<close>\<close>
  localTZA :: "int \<Rightarrow> int"
    \<comment> \<open>the offset of local time from UTC in milliseconds, at a local time value\<close>
  numberToStringOther :: "rat \<Rightarrow> string"
    \<comment> \<open>\<^verbatim>\<open>Number::toString\<close> of a finite number that is not an integer below \<open>10^21\<close>\<close>
  dateToString :: "int option \<Rightarrow> string"
    \<comment> \<open>\<^verbatim>\<open>Date.prototype.toString\<close>\<close>
  jsonParse :: "string \<Rightarrow> json option"
    \<comment> \<open>\<^verbatim>\<open>JSON.parse\<close>: \<open>None\<close> when it throws a SyntaxError\<close>
  randomId :: "nat \<Rightarrow> string"
    \<comment> \<open>\<^verbatim>\<open>Math.random().toString(36).substr(2, 9)\<close> as drawn for the row of that index\<close>

record RawTicket =
  Sr :: cell
  Subject :: cell
  Status :: cell
  ResolutionBy :: cell
  Assign :: cell
  Customer :: cell
  Priority :: cell
  TicketType :: cell
  Owner :: cell
  Rating :: cell
  Creation :: cell

record Ticket =
  id_field :: string
  subject :: string
  status :: string
  assignees :: "string list"
  customer :: string
  priority :: cell
  ticketType :: string
  owner :: string
  rating :: jsnum
  createdAt :: "int option"
  resolvedAt :: "int option option"
    \<comment> \<open>\<open>None\<close> is \<^verbatim>\<open>null\<close>; \<open>Some d\<close> is the \<^verbatim>\<open>Date\<close> \<open>d\<close>\<close>
  resolutionTimeHours :: jsnum

definition Number_toString :: "env \<Rightarrow> jsnum \<Rightarrow> string" where
  \<comment> \<open>\<^verbatim>\<open>String(n)\<close> for a number\<close>
  "Number_toString env n =
     (case n of
        NaN \<Rightarrow> ''NaN''
      | PInf \<Rightarrow> ''Infinity''
      | NInf \<Rightarrow> ''-Infinity''
      | Fin q \<Rightarrow>
          if q = of_int \<lfloor>q\<rfloor> \<and> \<bar>q\<bar> < 10 ^ 21
          then (if q < 0 then ''-'' else []) @ show_nat (nat \<bar>\<lfloor>q\<rfloor>\<bar>)
          else numberToStringOther env q)"

fun truthy :: "cell \<Rightarrow> bool" where
  \<comment> \<open>ToBoolean\<close>
  "truthy CUndefined = False"
| "truthy CNull = False"
| "truthy (CBool b) = b"
| "truthy (CNum n) = truthy_num n"
| "truthy (CStr s) = (s \<noteq> [])"
| "truthy (CDate _) = True"
| "truthy (CArr _) = True"

fun ToString :: "env \<Rightarrow> cell \<Rightarrow> string" where
  \<comment> \<open>\<^verbatim>\<open>String(v)\<close> for a cell\<close>
  "ToString env CUndefined = ''undefined''"
| "ToString env CNull = ''null''"
| "ToString env (CBool b) = (if b then ''true'' else ''false'')"
| "ToString env (CNum n) = Number_toString env n"
| "ToString env (CStr s) = s"
| "ToString env (CDate t) = (case t of None \<Rightarrow> ''Invalid Date'' | Some _ \<Rightarrow> dateToString env t)"
| "ToString env (CArr xs) =
     join_with '','' (map (\<lambda>x. case x of CUndefined \<Rightarrow> [] | CNull \<Rightarrow> [] | _ \<Rightarrow> ToString env x) xs)"

fun truthy_json :: "json \<Rightarrow> bool" where
  "truthy_json JNull = False"
| "truthy_json (JBool b) = b"
| "truthy_json (JNum n) = truthy_num n"
| "truthy_json (JStr s) = (s \<noteq> [])"
| "truthy_json (JArr _) = True"
| "truthy_json (JObj _) = True"

fun sequence :: "(error + 'a) list \<Rightarrow> error + 'a list" where
  \<comment> \<open>the results in order, or the first exception\<close>
  "sequence [] = Inr []"
| "sequence (Inl e # _) = Inl e"
| "sequence (Inr x # rs) = (case sequence rs of Inl e \<Rightarrow> Inl e | Inr xs \<Rightarrow> Inr (x # xs))"

fun ToString_json :: "env \<Rightarrow> json \<Rightarrow> error + string" where
  \<comment> \<open>\<^verbatim>\<open>String(v)\<close> for a value that \<^verbatim>\<open>JSON.parse\<close> returned. An object that has an own
     \<^verbatim>\<open>toString\<close> member has no callable \<^verbatim>\<open>toString\<close> (a JSON value is never a function),
     and \<^verbatim>\<open>valueOf\<close> gives no primitive: OrdinaryToPrimitive throws a TypeError.\<close>
  "ToString_json env JNull = Inr ''null''"
| "ToString_json env (JBool b) = Inr (if b then ''true'' else ''false'')"
| "ToString_json env (JNum n) = Inr (Number_toString env n)"
| "ToString_json env (JStr s) = Inr s"
| "ToString_json env (JArr xs) =
     (case sequence (map (\<lambda>x. case x of JNull \<Rightarrow> Inr [] | _ \<Rightarrow> ToString_json env x) xs) of
        Inl e \<Rightarrow> Inl e
      | Inr ss \<Rightarrow> Inr (join_with '','' ss))"
| "ToString_json env (JObj kvs) =
     (if ''toString'' \<in> fst ` set kvs then Inl TypeError else Inr ''[object Object]'')"

definition toFixed :: "env \<Rightarrow> nat \<Rightarrow> jsnum \<Rightarrow> string" where
  \<comment> \<open>\<^verbatim>\<open>x.toFixed(f)\<close>: the integer \<open>n\<close> with \<open>n / 10^f\<close> nearest to \<open>\<bar>x\<bar>\<close>, the larger one at a
     tie, written with \<open>f\<close> digits after the point\<close>
  "toFixed env f x =
     (case x of
        Fin q \<Rightarrow>
          (let sgn = (if q < 0 then ''-'' else []);
               a = \<bar>q\<bar>
           in if 10 ^ 21 \<le> a then sgn @ Number_toString env (Fin a)
              else
                (let n = nat \<lfloor>a * 10 ^ f + 1 / 2\<rfloor>;
                     m = show_nat n
                 in if f = 0 then sgn @ m
                    else
                      (let m' = replicate (Suc f - length m) CHR ''0'' @ m;
                           k = length m'
                       in sgn @ take (k - f) m' @ ''.'' @ drop (k - f) m')))
      | _ \<Rightarrow> Number_toString env x)"

subsection \<open>Dates\<close>

definition TimeClip :: "int \<Rightarrow> int option" where
  "TimeClip t = (if 8640000000000000 < \<bar>t\<bar> then None else Some t)"

definition getTime :: "int option \<Rightarrow> int option" where
  \<comment> \<open>the time value of a \<^verbatim>\<open>Date\<close> cell. A \<^verbatim>\<open>Date\<close> object holds \<open>NaN\<close> or a time value that
     TimeClip accepts; a cell outside that range is read as the invalid date.\<close>
  "getTime d = (case d of None \<Rightarrow> None | Some t \<Rightarrow> TimeClip t)"

definition DayFromYear :: "int \<Rightarrow> int" where
  "DayFromYear y =
     365 * (y - 1970) + (y - 1969) div 4 - (y - 1901) div 100 + (y - 1601) div 400"

definition InLeapYear :: "int \<Rightarrow> bool" where
  "InLeapYear y = (y mod 4 = 0 \<and> (y mod 100 \<noteq> 0 \<or> y mod 400 = 0))"

definition monthStarts :: "int list" where
  "monthStarts = [0, 31, 59, 90, 120, 151, 181, 212, 243, 273, 304, 334]"

definition MakeDay :: "int \<Rightarrow> int \<Rightarrow> int \<Rightarrow> int" where
  \<comment> \<open>the day number of day \<open>dt\<close> of month \<open>m\<close> (0 is January, any integer) of year \<open>y\<close>\<close>
  "MakeDay y m dt =
     (let ym = y + m div 12;
          mn = nat (m mod 12)
      in DayFromYear ym + monthStarts ! mn + (if InLeapYear ym \<and> 2 \<le> mn then 1 else 0)
         + dt - 1)"

definition MakeTime :: "int \<Rightarrow> int \<Rightarrow> int \<Rightarrow> int \<Rightarrow> int" where
  "MakeTime h mi s ms = h * 3600000 + mi * 60000 + s * 1000 + ms"

definition MakeDate :: "int \<Rightarrow> int \<Rightarrow> int" where
  "MakeDate day time = day * 86400000 + time"

definition UTC :: "env \<Rightarrow> int \<Rightarrow> int" where
  "UTC env t = t - localTZA env t"

definition newDateFromString :: "env \<Rightarrow> string \<Rightarrow> int option" where
  \<comment> \<open>\<^verbatim>\<open>new Date(s)\<close> for a string\<close>
  "newDateFromString env s = (case dateParse env s of None \<Rightarrow> None | Some t \<Rightarrow> TimeClip t)"

definition newDateFromParts ::
  "env \<Rightarrow> int option \<Rightarrow> int option \<Rightarrow> int option \<Rightarrow> int option \<Rightarrow> int option \<Rightarrow> int option
     \<Rightarrow> int option" where
  \<comment> \<open>\<^verbatim>\<open>new Date(year, month, day, hours, minutes, seconds)\<close>, a local time; an argument
     \<open>None\<close> is \<open>NaN\<close>\<close>
  "newDateFromParts env year month day hours minutes seconds =
     (case those [year, month, day, hours, minutes, seconds] of
        Some [y, m, dt, h, mi, s] \<Rightarrow>
          (let yr = (if 0 \<le> y \<and> y \<le> 99 then 1900 + y else y)
           in TimeClip (UTC env (MakeDate (MakeDay yr m dt) (MakeTime h mi s 0))))
      | _ \<Rightarrow> None)"

definition orZero :: "string list \<Rightarrow> nat \<Rightarrow> string" where
  \<comment> \<open>\<^verbatim>\<open>xs[i] || '0'\<close>\<close>
  "orZero xs i = (if i < length xs \<and> xs ! i \<noteq> [] then xs ! i else ''0'')"

definition manualParse :: "env \<Rightarrow> string \<Rightarrow> int option" where
  \<comment> \<open>the body of the \<^verbatim>\<open>try\<close> block of \<^verbatim>\<open>parseCustomDate\<close>; nothing in it throws\<close>
  "manualParse env dateStr =
     (let cleanDateStr = replaceAll CHR ''/'' CHR ''-'' (replaceAll CHR ''.'' CHR ''-'' dateStr);
          ws = split_on CHR '' '' cleanDateStr;
          d = (case ws of [] \<Rightarrow> [] | x # _ \<Rightarrow> x);
          t = (case ws of _ # y # _ \<Rightarrow> y | _ \<Rightarrow> [])
      in case split_on CHR ''-'' d of
           [p0, p1, p2] \<Rightarrow>
             (let year = (if length p0 = 4 then parseInt p0 else parseInt p2);
                  month = parseInt p1;
                  day = (if length p0 = 4 then parseInt p2 else parseInt p0)
              in if t \<noteq> [] then
                   (let hms = split_on CHR '':'' t
                    in newDateFromParts env year (map_option (\<lambda>m. m - 1) month) day
                         (parseInt (orZero hms 0)) (parseInt (orZero hms 1))
                         (parseInt (orZero hms 2)))
                 else newDateFromParts env year (map_option (\<lambda>m. m - 1) month) day
                        (Some 0) (Some 0) (Some 0))
         | _ \<Rightarrow> Some 0)"

definition parseCustomDate :: "env \<Rightarrow> cell \<Rightarrow> int option" where
  \<comment> \<open>the time value of the \<^verbatim>\<open>Date\<close> returned; \<open>Some 0\<close> is \<^verbatim>\<open>new Date(0)\<close>\<close>
  "parseCustomDate env input =
     (if \<not> truthy input \<or> input = CStr ''-'' then Some 0
      else
        (case input of
           CDate d \<Rightarrow> (case getTime d of None \<Rightarrow> Some 0 | Some t \<Rightarrow> Some t)
         | _ \<Rightarrow>
           (let dateStr = ToString env input
            in if trim dateStr = [] \<or> toLowerCase dateStr = ''null'' then Some 0
               else
                 (case newDateFromString env dateStr of
                    Some t \<Rightarrow> Some t
                  | None \<Rightarrow> manualParse env dateStr))))"

subsection \<open>Building tickets\<close>

definition flat :: "json list \<Rightarrow> json list" where
  \<comment> \<open>\<^verbatim>\<open>Array.prototype.flat()\<close>, one level\<close>
  "flat xs = concat (map (\<lambda>x. case x of JArr ys \<Rightarrow> ys | _ \<Rightarrow> [x]) xs)"

definition rawAssignees :: "env \<Rightarrow> cell \<Rightarrow> json" where
  \<comment> \<open>the value of \<^verbatim>\<open>assignees\<close> after the first \<^verbatim>\<open>if\<close> of the row function\<close>
  "rawAssignees env rawAssign =
     (if truthy rawAssign then
        (case rawAssign of
           CArr xs \<Rightarrow> JArr (map (\<lambda>x. JStr (ToString env x)) xs)
         | _ \<Rightarrow>
           (let str = trim (ToString env rawAssign)
            in if startsWith str CHR ''['' \<and> endsWith str CHR '']'' then
                 (case jsonParse env (replaceAll CHR 0x27 CHR 0x22 str) of
                    Some v \<Rightarrow> v
                  | None \<Rightarrow> JArr [JStr str])
               else if CHR '','' \<in> set str then
                 JArr (map (\<lambda>s. JStr (trim s)) (split_on CHR '','' str))
               else JArr [JStr str]))
      else JArr [])"

definition cleanAssignees :: "env \<Rightarrow> json \<Rightarrow> error + string list" where
  \<comment> \<open>\<^verbatim>\<open>assignees.flat().map(a => String(a || '')).filter(a => a.trim() !== '')\<close>; a value
     that is not an array has no \<^verbatim>\<open>flat\<close> method\<close>
  "cleanAssignees env v =
     (case v of
        JArr xs \<Rightarrow>
          (case sequence (map (\<lambda>a. if truthy_json a then ToString_json env a else Inr [])
                           (flat xs)) of
             Inl e \<Rightarrow> Inl e
           | Inr ss \<Rightarrow> Inr (filter (\<lambda>a. trim a \<noteq> []) ss))
      | _ \<Rightarrow> Inl TypeError)"

definition parseAssignees :: "env \<Rightarrow> RawTicket \<Rightarrow> error + string list" where
  "parseAssignees env row =
     (case cleanAssignees env (rawAssignees env (Assign row)) of
        Inl e \<Rightarrow> Inl e
      | Inr as \<Rightarrow>
          Inr (if as = [] \<and> truthy (Owner row) then [ToString env (Owner row)] else as))"

definition parseStatus :: "env \<Rightarrow> RawTicket \<Rightarrow> string" where
  \<comment> \<open>the final value of \<^verbatim>\<open>statusStr\<close>\<close>
  "parseStatus env row =
     (let statusStr = (if truthy (Status row) then trim (ToString env (Status row)) else ''Open'');
          lowerStatus = toLowerCase statusStr
      in if lowerStatus = ''resolved'' \<or> lowerStatus = ''completed'' \<or> lowerStatus = ''verified''
         then ''Closed'' else statusStr)"

definition parseResolved :: "env \<Rightarrow> RawTicket \<Rightarrow> int option option" where
  "parseResolved env row =
     (if parseStatus env row = ''Closed'' \<and> truthy (ResolutionBy row)
      then Some (parseCustomDate env (ResolutionBy row)) else None)"

definition resolutionHours :: "int option \<Rightarrow> int option option \<Rightarrow> jsnum" where
  \<comment> \<open>the final value of \<^verbatim>\<open>hours\<close>\<close>
  "resolutionHours created resolved =
     (case resolved of
        Some (Some r) \<Rightarrow>
          (case created of
             Some c \<Rightarrow> if 0 < c \<and> 0 < r then Fin (of_int (r - c) / (1000 * 60 * 60)) else Fin 0
           | None \<Rightarrow> Fin 0)
      | _ \<Rightarrow> Fin 0)"

definition parseRating :: "env \<Rightarrow> RawTicket \<Rightarrow> jsnum" where
  \<comment> \<open>\<^verbatim>\<open>row.Rating ? parseFloat(String(row.Rating)) || 0 : 0\<close>\<close>
  "parseRating env row =
     (if truthy (Rating row) then
        (let r = parseFloat (ToString env (Rating row)) in if truthy_num r then r else Fin 0)
      else Fin 0)"

definition parseRow :: "env \<Rightarrow> nat \<Rightarrow> RawTicket \<Rightarrow> error + Ticket" where
  \<comment> \<open>the function that \<^verbatim>\<open>parseRawData\<close> maps over the rows, at row index \<open>i\<close>\<close>
  "parseRow env i row =
     (case parseAssignees env row of
        Inl e \<Rightarrow> Inl e
      | Inr as \<Rightarrow>
          (let statusStr = parseStatus env row;
               created = parseCustomDate env (Creation row);
               resolved = parseResolved env row;
               hours = resolutionHours created resolved;
               tType = (if truthy (TicketType row) then trim (ToString env (TicketType row))
                        else ''Unspecified'')
           in Inr \<lparr>
                id_field = (if truthy (Sr row) then ToString env (Sr row) else randomId env i),
                subject = (if truthy (Subject row) then ToString env (Subject row)
                           else ''No Subject''),
                status = statusStr,
                assignees = as,
                customer = (if truthy (Customer row) then ToString env (Customer row)
                            else ''Unknown''),
                priority = (if truthy (Priority row) then Priority row else CStr ''Medium''),
                ticketType = (if tType \<noteq> [] then tType else ''Unspecified''),
                owner = (if truthy (Owner row) then ToString env (Owner row) else []),
                rating = parseRating env row,
                createdAt = created,
                resolvedAt = resolved,
                resolutionTimeHours = Math_max (Fin 0) (parseFloat (toFixed env 2 hours))
              \<rparr>))"

definition parseRawData :: "env \<Rightarrow> RawTicket list \<Rightarrow> error + Ticket list" where
  \<comment> \<open>\<^verbatim>\<open>data.map(row => ...)\<close>: the tickets in row order, or the first exception\<close>
  "parseRawData env data = sequence (map (\<lambda>(i, row). parseRow env i row) (enumerate 0 data))"

subsection \<open>Agent metrics\<close>

record AgentMetrics =
  email :: string
  totalTickets :: nat
  avgRating :: jsnum
  avgResolutionHours :: jsnum
  activeTickets :: nat

record stats =
  total :: nat
  ratingSum :: jsnum
  timeSum :: jsnum
  resolvedCount :: nat
  active :: nat

text \<open>
  The \<^verbatim>\<open>Map\<close> of the rollup is an association list in insertion order, the order in which
  \<^verbatim>\<open>Map.prototype.forEach\<close> visits the entries; its keys are pairwise different.
\<close>

definition newStats :: stats where
  "newStats = \<lparr> total = 0, ratingSum = Fin 0, timeSum = Fin 0, resolvedCount = 0, active = 0 \<rparr>"

definition map_has :: "(string \<times> stats) list \<Rightarrow> string \<Rightarrow> bool" where
  "map_has m k = (k \<in> fst ` set m)"

fun map_modify :: "string \<Rightarrow> (stats \<Rightarrow> stats) \<Rightarrow> (string \<times> stats) list \<Rightarrow> (string \<times> stats) list" where
  \<comment> \<open>the in-place update of the object stored under a key\<close>
  "map_modify k f [] = []"
| "map_modify k f ((k', v) # m) =
     (if k' = k then (k', f v) # m else (k', v) # map_modify k f m)"

definition addTicket :: "Ticket \<Rightarrow> stats \<Rightarrow> stats" where
  "addTicket t st =
     (if status t = ''Closed''
      then st\<lparr> total := total st + 1,
               ratingSum := js_add (ratingSum st) (rating t),
               timeSum := js_add (timeSum st) (resolutionTimeHours t),
               resolvedCount := resolvedCount st + 1 \<rparr>
      else st\<lparr> total := total st + 1, active := active st + 1 \<rparr>)"

definition recordAgent :: "Ticket \<Rightarrow> (string \<times> stats) list \<Rightarrow> string \<Rightarrow> (string \<times> stats) list" where
  \<comment> \<open>the body of the inner \<^verbatim>\<open>forEach\<close>\<close>
  "recordAgent t m agent =
     (if agent = [] then m
      else
        (let cleanAgent = trim agent
         in if cleanAgent = [] then m
            else map_modify cleanAgent (addTicket t)
                   (if map_has m cleanAgent then m else m @ [(cleanAgent, newStats)])))"

definition recordTicket :: "(string \<times> stats) list \<Rightarrow> Ticket \<Rightarrow> (string \<times> stats) list" where
  \<comment> \<open>the body of the outer \<^verbatim>\<open>forEach\<close>\<close>
  "recordTicket m t = foldl (recordAgent t) m (assignees t)"

definition toMetrics :: "string \<times> stats \<Rightarrow> AgentMetrics" where
  "toMetrics kv =
     (case kv of (key, v) \<Rightarrow>
        \<lparr> email = key,
          totalTickets = total v,
          avgRating = (if 0 < resolvedCount v
                       then js_div (ratingSum v) (Fin (of_nat (resolvedCount v))) else Fin 0),
          avgResolutionHours = (if 0 < resolvedCount v
                                then js_div (timeSum v) (Fin (of_nat (resolvedCount v))) else Fin 0),
          activeTickets = active v \<rparr>)"

definition calculateAgentMetrics :: "Ticket list \<Rightarrow> AgentMetrics list" where
  \<comment> \<open>\<^verbatim>\<open>Array.prototype.sort\<close> is stable; the comparator \<^verbatim>\<open>b.totalTickets - a.totalTickets\<close>
     orders by \<open>totalTickets\<close>, largest first\<close>
  "calculateAgentMetrics tickets =
     sort_key (\<lambda>a. - int (totalTickets a))
       (map toMetrics (filter (\<lambda>kv. fst kv \<noteq> []) (foldl recordTicket [] tickets)))"

subsection \<open>Dashboard trends\<close>

definition getPctDiff :: "jsnum \<Rightarrow> jsnum \<Rightarrow> jsnum" where
  "getPctDiff cur pre =
     (if pre = Fin 0 then (if cur = Fin 0 then Fin 0 else Fin 100)
      else js_mul (js_div (js_sub cur pre) pre) (Fin 100))"

definition formatTrend :: "env \<Rightarrow> jsnum \<Rightarrow> string \<Rightarrow> string" where
  "formatTrend env diff suffix =
     (if js_gt diff (Fin 0) then ''+'' else []) @ toFixed env 1 diff @ suffix"

definition pctTrend :: "env \<Rightarrow> jsnum \<Rightarrow> jsnum \<Rightarrow> string" where
  \<comment> \<open>\<^verbatim>\<open>formatTrend(getPctDiff(curr, pre))\<close>, the text of the total, resolution and open
     trends; the suffix defaults to the percent sign\<close>
  "pctTrend env cur pre = formatTrend env (getPctDiff cur pre) ''%''"

subsection \<open>Notions of the specification\<close>

definition round2 :: "rat \<Rightarrow> rat" where
  \<comment> \<open>a rational rounded to two decimal places, a tie away from zero\<close>
  "round2 x = (if x < 0 then - 1 else 1) * of_int \<lfloor>\<bar>x\<bar> * 100 + 1 / 2\<rfloor> / 100"

definition round1 :: "rat \<Rightarrow> rat" where
  \<comment> \<open>a rational rounded to one decimal place, a tie away from zero\<close>
  "round1 x = (if x < 0 then - 1 else 1) * of_int \<lfloor>\<bar>x\<bar> * 10 + 1 / 2\<rfloor> / 10"

definition js_sum :: "jsnum list \<Rightarrow> jsnum" where
  \<comment> \<open>the sum of a list of numbers, added from the left starting at 0\<close>
  "js_sum xs = foldl js_add (Fin 0) xs"

definition js_mean :: "jsnum list \<Rightarrow> jsnum" where
  \<comment> \<open>the mean of a list of numbers, 0 for the empty list\<close>
  "js_mean xs = (if xs = [] then Fin 0 else js_div (js_sum xs) (Fin (of_nat (length xs))))"

definition ticketsOf :: "Ticket list \<Rightarrow> string \<Rightarrow> Ticket list" where
  \<comment> \<open>the tickets of an agent: one occurrence of a ticket for each of its assignees that
     trims to the agent's name\<close>
  "ticketsOf tickets k =
     concat (map (\<lambda>t. map (\<lambda>a. t) (filter (\<lambda>a. trim a = k) (assignees t))) tickets)"

definition getStats :: "(string \<times> stats) list \<Rightarrow> string \<Rightarrow> stats" where
  \<comment> \<open>the statistics stored under a key, the fresh ones when the key is absent\<close>
  "getStats m k = (case map_of m k of Some st \<Rightarrow> st | None \<Rightarrow> newStats)"

definition addAll :: "stats \<Rightarrow> Ticket list \<Rightarrow> stats" where
  \<comment> \<open>statistics after a list of tickets has been added, in order\<close>
  "addAll st ts = foldl (\<lambda>st t. addTicket t st) st ts"

definition isClosed :: "Ticket \<Rightarrow> bool" where
  "isClosed t = (status t = ''Closed'')"

definition statusSynonyms :: "string set" where
  "statusSynonyms = {''resolved'', ''completed'', ''verified''}"

definition nonBlank :: "string \<Rightarrow> bool" where
  "nonBlank a = (trim a \<noteq> [])"

subsection \<open>Sample environment and rows\<close>

definition march15 :: int where
  \<comment> \<open>midnight of March 15, 2024 as a time value\<close>
  "march15 = MakeDate (MakeDay 2024 2 15) (MakeTime 0 0 0 0)"

definition quot :: string where
  "quot = [CHR 0x22]"

definition apos :: string where
  "apos = [CHR 0x27]"

definition objectText :: string where
  \<comment> \<open>the JSON text of an array holding an object with a \<^verbatim>\<open>toString\<close> member\<close>
  "objectText = ''[{'' @ quot @ ''toString'' @ quot @ '':1}]''"

definition pairText :: string where
  \<comment> \<open>the JSON text of the array of two addresses\<close>
  "pairText = ''['' @ quot @ ''a@x.com'' @ quot @ '', '' @ quot @ ''b@x.com'' @ quot @ '']''"

definition pairCell :: string where
  \<comment> \<open>the cell text \<^verbatim>\<open>['a@x.com', 'b@x.com']\<close>\<close>
  "pairCell = ''['' @ apos @ ''a@x.com'' @ apos @ '', '' @ apos @ ''b@x.com'' @ apos @ '']''"

definition env_cet :: env where
  \<comment> \<open>an engine in a zone one hour east of UTC: \<^verbatim>\<open>Date.parse\<close> reads the ISO date
     \<^verbatim>\<open>2024-03-15\<close> as midnight UTC and rejects the other strings used below;
     \<^verbatim>\<open>JSON.parse\<close> is given on two texts\<close>
  "env_cet =
     \<lparr> dateParse = (\<lambda>s. if s = ''2024-03-15'' then Some 1710460800000 else None),
       localTZA = (\<lambda>t. 3600000),
       numberToStringOther = (\<lambda>q. ''1.5''),
       dateToString = (\<lambda>t. ''Fri Mar 15 2024 00:00:00 GMT+0100''),
       jsonParse = (\<lambda>s. if s = pairText then Some (JArr [JStr ''a@x.com'', JStr ''b@x.com''])
                        else if s = objectText
                        then Some (JArr [JObj [(''toString'', JNum (Fin 1))]])
                        else None),
       randomId = (\<lambda>i. ''k3x9q0a1z'') \<rparr>"

definition blank_row :: RawTicket where
  \<comment> \<open>a row with no column at all\<close>
  "blank_row =
     \<lparr> Sr = CUndefined, Subject = CUndefined, Status = CUndefined, ResolutionBy = CUndefined,
       Assign = CUndefined, Customer = CUndefined, Priority = CUndefined,
       TicketType = CUndefined, Owner = CUndefined, Rating = CUndefined,
       Creation = CUndefined \<rparr>"

definition sample_ticket :: "string \<Rightarrow> string list \<Rightarrow> rat \<Rightarrow> rat \<Rightarrow> Ticket" where
  \<comment> \<open>a ticket with a status, assignees, a rating and a resolution time\<close>
  "sample_ticket st as r h =
     \<lparr> id_field = ''1'', subject = ''No Subject'', status = st, assignees = as,
       customer = ''Unknown'', priority = CStr ''Medium'', ticketType = ''Unspecified'',
       owner = [], rating = Fin r, createdAt = Some 0, resolvedAt = None,
       resolutionTimeHours = Fin h \<rparr>"

definition sample_population :: "Ticket list" where
  \<comment> \<open>three tickets of one agent: two closed, rated 4 and 5, and one open\<close>
  "sample_population =
     [sample_ticket ''Closed'' [''x@y.com''] 4 2,
      sample_ticket ''Closed'' [''x@y.com''] 5 4,
      sample_ticket ''Open'' [''x@y.com''] 0 0]"

definition blank_population :: "Ticket list" where
  \<comment> \<open>one ticket with two assignees that differ in a leading blank\<close>
  "blank_population = [sample_ticket ''Open'' [''a'', '' a''] 0 0]"

section \<open>Properties\<close>

subsection \<open>The fields of a built ticket\<close>

lemma parseRow_fields:
  assumes "parseRow env i row = Inr t"
  shows "parseAssignees env row = Inr (assignees t)"
    and "status t = parseStatus env row"
    and "rating t = parseRating env row"
    and "createdAt t = parseCustomDate env (Creation row)"
    and "resolvedAt t = parseResolved env row"
    and "resolutionTimeHours t =
           Math_max (Fin 0) (parseFloat (toFixed env 2
             (resolutionHours (parseCustomDate env (Creation row)) (parseResolved env row))))"
  using assms by (auto simp: parseRow_def Let_def split: sum.splits)

lemma parseRow_total:
  assumes "parseAssignees env row = Inr as"
  shows "\<exists>t. parseRow env i row = Inr t"
  using assms by (simp add: parseRow_def Let_def)

lemma synonyms_not_closed:
  "toLowerCase ''Closed'' \<notin> statusSynonyms" "toLowerCase ''Open'' \<notin> statusSynonyms"
  by (simp_all add: statusSynonyms_def toLowerCase_def toLowerCaseChar_def lowerTable_def)

lemma blank_assignees: "parseAssignees env_cet (blank_row\<lparr>Status := s\<rparr>) = Inr []"
  by (simp add: parseAssignees_def cleanAssignees_def rawAssignees_def blank_row_def flat_def)

subsection \<open>Status\<close>

text \<open>
  Claim C4, as amended. The status of a built ticket is \<open>Open\<close> when the source status is
  absent (falsy). Otherwise the source status is converted to a string and trimmed of
  surrounding white space: the ticket's status is \<open>Closed\<close> when that string is
  \<open>resolved\<close>, \<open>completed\<close> or \<open>verified\<close> in any letter case, and the trimmed string itself
  otherwise. So the status is \<open>Closed\<close> exactly when the source status is present and its
  trimmed string is one of the three synonyms or is \<open>Closed\<close> already.
\<close>

theorem status_collapse:
  assumes "parseRow env i row = Inr t"
  shows "status t =
           (if \<not> truthy (Status row) then ''Open''
            else if toLowerCase (trim (ToString env (Status row))) \<in> statusSynonyms
              then ''Closed''
            else trim (ToString env (Status row)))
         \<and> (status t = ''Closed'' \<longleftrightarrow>
              truthy (Status row) \<and>
              (toLowerCase (trim (ToString env (Status row))) \<in> statusSynonyms
               \<or> trim (ToString env (Status row)) = ''Closed''))"
proof -
  have st: "status t = parseStatus env row"
    using assms by (rule parseRow_fields)
  have open_low: "toLowerCase ''Open'' \<notin> statusSynonyms"
    by (rule synonyms_not_closed)
  show ?thesis
  proof (cases "truthy (Status row)")
    case False
    with st open_low show ?thesis
      by (simp add: parseStatus_def Let_def statusSynonyms_def)
  next
    case True
    with st show ?thesis
      by (auto simp: parseStatus_def Let_def statusSynonyms_def)
  qed
qed

text \<open>The status \<open>completed\<close> collapses to \<open>Closed\<close>.\<close>

theorem status_collapse_witness:
  "\<exists>t. parseRow env_cet 0 (blank_row\<lparr>Status := CStr ''completed''\<rparr>) = Inr t
       \<and> status t = ''Closed''"
proof -
  obtain t where t: "parseRow env_cet 0 (blank_row\<lparr>Status := CStr ''completed''\<rparr>) = Inr t"
    using parseRow_total [OF blank_assignees] by blast
  have "status t = ''Closed''"
    using status_collapse [OF t]
    by (simp add: blank_row_def statusSynonyms_def trim_def isWhiteSpace_def whiteSpaceChars_def
        toLowerCase_def toLowerCaseChar_def lowerTable_def)
  with t show ?thesis by blast
qed

text \<open>
  The claim as stated fails: a status with surrounding blanks, which is none of the three
  synonyms, does not pass through unchanged, and the source status \<open>Closed\<close>, which is none
  of the three synonyms either, gives a ticket whose status is \<open>Closed\<close>.
\<close>

theorem status_collapse_counterexample:
  "map_sum id status (parseRow env_cet 0 (blank_row\<lparr>Status := CStr '' Replied ''\<rparr>))
     = Inr ''Replied''
   \<and> ''Replied'' \<noteq> '' Replied ''
   \<and> toLowerCase '' Replied '' \<notin> statusSynonyms
   \<and> map_sum id status (parseRow env_cet 0 (blank_row\<lparr>Status := CStr ''Closed''\<rparr>))
     = Inr ''Closed''
   \<and> toLowerCase ''Closed'' \<notin> statusSynonyms"
  by code_simp

lemma blank_assignees_any:
  assumes "Assign row = CUndefined" and "Owner row = CUndefined"
  shows "parseAssignees env row = Inr []"
  using assms by (simp add: parseAssignees_def cleanAssignees_def rawAssignees_def flat_def)

subsection \<open>Rating\<close>

text \<open>
  Claim C6, as amended. The rating of a built ticket is a number, never \<open>NaN\<close>: it is 0
  when the source rating is absent (falsy) or its string does not parse as a number, and
  the parsed number otherwise, whatever its sign.
\<close>

theorem rating_number:
  assumes "parseRow env i row = Inr t"
  shows "rating t \<noteq> NaN
         \<and> rating t =
             (if truthy (Rating row) \<and> parseFloat (ToString env (Rating row)) \<noteq> NaN
              then parseFloat (ToString env (Rating row)) else Fin 0)"
proof -
  have "rating t = parseRating env row"
    using assms by (rule parseRow_fields)
  then show ?thesis
    by (auto simp: parseRating_def Let_def truthy_num_def)
qed

text \<open>The rating \<open>4.5\<close> is read as the number 4.5.\<close>

theorem rating_number_witness:
  "\<exists>t. parseRow env_cet 0 (blank_row\<lparr>Rating := CStr ''4.5''\<rparr>) = Inr t \<and> rating t = Fin (9 / 2)"
proof -
  have "parseAssignees env_cet (blank_row\<lparr>Rating := CStr ''4.5''\<rparr>) = Inr []"
    by (rule blank_assignees_any) (simp_all add: blank_row_def)
  then obtain t where t: "parseRow env_cet 0 (blank_row\<lparr>Rating := CStr ''4.5''\<rparr>) = Inr t"
    using parseRow_total by blast
  have pf: "parseFloat ''4.5'' = Fin (9 / 2)"
    by code_simp
  have "rating t = Fin (9 / 2)"
    using rating_number [OF t] by (simp add: blank_row_def pf)
  with t show ?thesis by blast
qed

text \<open>The claim as stated fails: the source rating \<open>-3\<close> gives the negative rating -3.\<close>

theorem rating_number_counterexample:
  "map_sum id rating (parseRow env_cet 0 (blank_row\<lparr>Rating := CStr ''-3''\<rparr>)) = Inr (Fin (- 3))
   \<and> (- 3 :: rat) < 0"
  by code_simp

subsection \<open>Resolution date\<close>

text \<open>
  Claim C7, as amended. The resolution date of a built ticket is the absent marker exactly
  when the ticket's status is not \<open>Closed\<close> or the resolution-date source field is absent
  (falsy). Otherwise it is the date that the date parser returns for that field. So a
  resolution date that is a valid instant comes from a closed ticket whose source field is
  present and parses to that instant; a field that the parser maps to the epoch sentinel
  gives the sentinel, not the absent marker.
\<close>

theorem resolvedAt_rule:
  assumes "parseRow env i row = Inr t"
  shows "resolvedAt t =
           (if status t = ''Closed'' \<and> truthy (ResolutionBy row)
            then Some (parseCustomDate env (ResolutionBy row)) else None)
         \<and> (resolvedAt t = None \<longleftrightarrow> status t \<noteq> ''Closed'' \<or> \<not> truthy (ResolutionBy row))
         \<and> (\<forall>v. resolvedAt t = Some (Some v) \<longrightarrow>
                status t = ''Closed'' \<and> truthy (ResolutionBy row)
                \<and> parseCustomDate env (ResolutionBy row) = Some v)"
proof -
  have "resolvedAt t = parseResolved env row" and "status t = parseStatus env row"
    using assms by (rule parseRow_fields)+
  then show ?thesis
    by (simp add: parseResolved_def)
qed

text \<open>A resolved ticket with the resolution date \<open>2024-03-15\<close>.\<close>

theorem resolvedAt_rule_witness:
  "\<exists>t. parseRow env_cet 0
          (blank_row\<lparr>Status := CStr ''Resolved'', ResolutionBy := CStr ''2024-03-15''\<rparr>) = Inr t
       \<and> resolvedAt t = Some (Some 1710460800000)"
proof -
  let ?row = "blank_row\<lparr>Status := CStr ''Resolved'', ResolutionBy := CStr ''2024-03-15''\<rparr>"
  have "parseAssignees env_cet ?row = Inr []"
    by (rule blank_assignees_any) (simp_all add: blank_row_def)
  then obtain t where t: "parseRow env_cet 0 ?row = Inr t"
    using parseRow_total by blast
  have ps: "parseStatus env_cet ?row = ''Closed''"
    by code_simp
  have st: "status t = ''Closed''"
    unfolding parseRow_fields(2) [OF t] by (rule ps)
  have pd: "parseCustomDate env_cet (CStr ''2024-03-15'') = Some 1710460800000"
    by code_simp
  have "resolvedAt t = Some (Some 1710460800000)"
    using resolvedAt_rule [OF t, THEN conjunct1] st pd by (simp add: blank_row_def)
  with t show ?thesis by blast
qed

text \<open>
  The claim as stated fails: on a closed ticket, the resolution date \<open>-\<close>, which the parser
  maps to the epoch sentinel, and the resolution date \<open>--\<close>, which it maps to the invalid
  date, both give a resolution date that is not the absent marker.
\<close>

theorem resolvedAt_rule_counterexample:
  "map_sum id resolvedAt
     (parseRow env_cet 0 (blank_row\<lparr>Status := CStr ''Resolved'', ResolutionBy := CStr ''-''\<rparr>))
     = Inr (Some (Some 0))
   \<and> map_sum id resolvedAt
     (parseRow env_cet 0 (blank_row\<lparr>Status := CStr ''Resolved'', ResolutionBy := CStr ''--''\<rparr>))
     = Inr (Some None)"
  by code_simp

subsection \<open>The date parser\<close>

lemma march15_value: "march15 = 1710460800000"
  by (simp add: march15_def MakeDate_def MakeDay_def MakeTime_def DayFromYear_def
      InLeapYear_def monthStarts_def)

lemma manual_dmy: "manualParse env ''15-03-2024'' = TimeClip (UTC env march15)"
  by (simp add: manualParse_def replaceAll_def parseInt_def trimStart_def isWhiteSpace_def
      whiteSpaceChars_def startsWith_def isDigit_def digitChars_def digitsVal_def digitStep_def digitVal_def
      newDateFromParts_def march15_def)

lemma manual_ymd: "manualParse env ''2024-03-15'' = TimeClip (UTC env march15)"
  by (simp add: manualParse_def replaceAll_def parseInt_def trimStart_def isWhiteSpace_def
      whiteSpaceChars_def startsWith_def isDigit_def digitChars_def digitsVal_def digitStep_def
      digitVal_def newDateFromParts_def march15_def)

lemma manual_dashes: "manualParse env ''--'' = None"
  by (simp add: manualParse_def replaceAll_def parseInt_def trimStart_def isWhiteSpace_def
      whiteSpaceChars_def startsWith_def isDigit_def digitChars_def newDateFromParts_def)

lemma parseCustomDate_string:
  assumes "s \<noteq> []" and "s \<noteq> ''-''" and "trim s \<noteq> []" and "toLowerCase s \<noteq> ''null''"
  shows "parseCustomDate env (CStr s) =
           (case newDateFromString env s of Some t \<Rightarrow> Some t | None \<Rightarrow> manualParse env s)"
  using assms by (simp add: parseCustomDate_def)

text \<open>
  Claim C3, as amended. On every engine the empty string and \<open>-\<close> are mapped to the epoch
  sentinel, and each of \<open>15-03-2024\<close> and \<open>2024-03-15\<close> is mapped to what
  \<^verbatim>\<open>new Date(string)\<close> gives when that is a valid date, and otherwise to midnight of March 15,
  2024 in local time (day first for \<open>15-03-2024\<close>; year first for \<open>2024-03-15\<close>, whose first
  component has four characters). Hence on an engine whose \<^verbatim>\<open>Date.parse\<close> rejects
  \<open>15-03-2024\<close> that string is mapped to midnight of March 15, 2024 in local time; on an
  engine that reads the ISO date \<open>2024-03-15\<close> as midnight UTC of March 15, 2024 (as the
  language standard prescribes) that string is mapped to midnight of March 15, 2024 in UTC;
  and on an engine that does both, the two instants agree exactly when the local time zone
  has offset zero at that time.
\<close>

theorem parse_march15:
  "parseCustomDate env (CStr []) = Some 0
   \<and> parseCustomDate env (CStr ''-'') = Some 0
   \<and> march15 = MakeDate (MakeDay 2024 2 15) (MakeTime 0 0 0 0)
   \<and> parseCustomDate env (CStr ''15-03-2024'')
       = (case newDateFromString env ''15-03-2024'' of
            Some t \<Rightarrow> Some t | None \<Rightarrow> TimeClip (UTC env march15))
   \<and> parseCustomDate env (CStr ''2024-03-15'')
       = (case newDateFromString env ''2024-03-15'' of
            Some t \<Rightarrow> Some t | None \<Rightarrow> TimeClip (UTC env march15))
   \<and> (dateParse env ''15-03-2024'' = None \<longrightarrow>
        parseCustomDate env (CStr ''15-03-2024'') = TimeClip (UTC env march15))
   \<and> (dateParse env ''2024-03-15'' = Some march15 \<longrightarrow>
        parseCustomDate env (CStr ''2024-03-15'') = Some march15)
   \<and> (dateParse env ''15-03-2024'' = None \<and> dateParse env ''2024-03-15'' = Some march15 \<longrightarrow>
        (parseCustomDate env (CStr ''15-03-2024'') = parseCustomDate env (CStr ''2024-03-15'')
           \<longleftrightarrow> localTZA env march15 = 0))"
proof -
  have low: "toLowerCase ''15-03-2024'' \<noteq> ''null''" "toLowerCase ''2024-03-15'' \<noteq> ''null''"
    by (simp_all add: toLowerCase_def)
  have tr: "trim ''15-03-2024'' \<noteq> []" "trim ''2024-03-15'' \<noteq> []"
    by (simp_all add: trim_def isWhiteSpace_def whiteSpaceChars_def)
  have empty: "parseCustomDate env (CStr []) = Some 0" "parseCustomDate env (CStr ''-'') = Some 0"
    by (simp_all add: parseCustomDate_def)
  have day: "march15 = MakeDate (MakeDay 2024 2 15) (MakeTime 0 0 0 0)"
    by (simp add: march15_def)
  have dmy: "parseCustomDate env (CStr ''15-03-2024'')
       = (case newDateFromString env ''15-03-2024'' of
            Some t \<Rightarrow> Some t | None \<Rightarrow> TimeClip (UTC env march15))"
    using low(1) tr(1) by (simp add: parseCustomDate_string manual_dmy cong: option.case_cong)
  have ymd: "parseCustomDate env (CStr ''2024-03-15'')
       = (case newDateFromString env ''2024-03-15'' of
            Some t \<Rightarrow> Some t | None \<Rightarrow> TimeClip (UTC env march15))"
    using low(2) tr(2) by (simp add: parseCustomDate_string manual_ymd cong: option.case_cong)
  have loc: "parseCustomDate env (CStr ''15-03-2024'') = TimeClip (UTC env march15)"
    if "dateParse env ''15-03-2024'' = None"
    unfolding dmy using that by (simp add: newDateFromString_def)
  have iso: "parseCustomDate env (CStr ''2024-03-15'') = Some march15"
    if "dateParse env ''2024-03-15'' = Some march15"
    unfolding ymd using that by (simp add: newDateFromString_def TimeClip_def march15_value)
  have zone: "TimeClip (UTC env march15) = Some march15 \<longleftrightarrow> localTZA env march15 = 0"
    by (auto simp: TimeClip_def UTC_def march15_value)
  have same: "parseCustomDate env (CStr ''15-03-2024'') = parseCustomDate env (CStr ''2024-03-15'')
                \<longleftrightarrow> localTZA env march15 = 0"
    if "dateParse env ''15-03-2024'' = None" and "dateParse env ''2024-03-15'' = Some march15"
    unfolding loc [OF that(1)] iso [OF that(2)] by (rule zone)
  from empty day dmy ymd loc iso same show ?thesis
    by blast
qed

text \<open>
  In a zone one hour east of UTC, on an engine that rejects the day-first string and reads
  the ISO date as UTC, the day-first date is 23:00 UTC of March 14 and the ISO date is
  midnight UTC of March 15.
\<close>

theorem parse_march15_witness:
  "parseCustomDate env_cet (CStr ''15-03-2024'') = Some 1710457200000
   \<and> parseCustomDate env_cet (CStr ''2024-03-15'') = Some 1710460800000
   \<and> parseCustomDate env_cet (CStr []) = Some 0
   \<and> parseCustomDate env_cet (CStr ''-'') = Some 0"
proof -
  have a: "dateParse env_cet ''15-03-2024'' = None"
    and b: "dateParse env_cet ''2024-03-15'' = Some march15"
    by (simp_all add: env_cet_def march15_value)
  have clip: "TimeClip (UTC env_cet march15) = Some 1710457200000"
    by (simp add: TimeClip_def UTC_def env_cet_def march15_value)
  note all = parse_march15 [of env_cet]
  from all a have "parseCustomDate env_cet (CStr ''15-03-2024'') = TimeClip (UTC env_cet march15)"
    by blast
  moreover from all b have "parseCustomDate env_cet (CStr ''2024-03-15'') = Some march15"
    by blast
  moreover from all have "parseCustomDate env_cet (CStr []) = Some 0"
    "parseCustomDate env_cet (CStr ''-'') = Some 0"
    by blast+
  ultimately show ?thesis
    unfolding clip by (simp add: march15_value)
qed

text \<open>
  The claim as stated fails: in a zone one hour east of UTC the strings \<open>2024-03-15\<close> and
  \<open>15-03-2024\<close> are mapped to instants one hour apart.
\<close>

theorem parse_march15_counterexample:
  "parseCustomDate env_cet (CStr ''2024-03-15'') = Some 1710460800000
   \<and> parseCustomDate env_cet (CStr ''15-03-2024'') = Some 1710457200000
   \<and> parseCustomDate env_cet (CStr ''2024-03-15'') \<noteq> parseCustomDate env_cet (CStr ''15-03-2024'')"
  by code_simp

text \<open>
  Claim C2, at a failing input. On an engine whose \<^verbatim>\<open>Date.parse\<close> rejects the string \<open>--\<close>,
  the parser splits it into three empty components, reads each as \<open>NaN\<close> and returns the
  invalid date: neither a valid instant nor the epoch sentinel.
\<close>

theorem parse_invalid_date:
  assumes "dateParse env ''--'' = None"
  shows "parseCustomDate env (CStr ''--'') = None \<and> parseCustomDate env (CStr ''--'') \<noteq> Some 0"
proof -
  have "trim ''--'' \<noteq> []" "toLowerCase ''--'' \<noteq> ''null''"
    by (simp_all add: trim_def isWhiteSpace_def whiteSpaceChars_def toLowerCase_def)
  then have "parseCustomDate env (CStr ''--'') = None"
    using assms by (simp add: parseCustomDate_string newDateFromString_def manual_dashes)
  then show ?thesis by simp
qed

theorem parse_invalid_date_witness:
  "parseCustomDate env_cet (CStr ''--'') = None \<and> parseCustomDate env_cet (CStr ''--'') \<noteq> Some 0"
proof -
  have "dateParse env_cet ''--'' = None"
    by (simp add: env_cet_def)
  then show ?thesis
    by (rule parse_invalid_date)
qed

subsection \<open>Exceptions of the row builder\<close>

lemma sequence_Inr:
  assumes "sequence rs = Inr xs"
  shows "length xs = length rs \<and> (\<forall>i < length rs. rs ! i = Inr (xs ! i))"
  using assms
proof (induction rs arbitrary: xs)
  case Nil
  then show ?case by simp
next
  case (Cons r rs)
  then obtain x where r: "r = Inr x"
    by (cases r) auto
  with Cons.prems obtain ys where ys: "sequence rs = Inr ys" and xs: "xs = x # ys"
    by (auto split: sum.splits)
  from Cons.IH [OF ys] r xs show ?case
    by (auto simp: nth_Cons split: nat.splits)
qed

lemma parseRawData_rows:
  assumes "parseRawData env data = Inr ts"
  shows "length ts = length data \<and> (\<forall>i < length data. parseRow env i (data ! i) = Inr (ts ! i))"
  using sequence_Inr [OF assms [unfolded parseRawData_def]]
  by (simp add: nth_enumerate_eq)

lemma objectText_brackets:
  "trim objectText = objectText" "startsWith objectText CHR ''[''" "endsWith objectText CHR '']''"
  "replaceAll CHR 0x27 CHR 0x22 objectText = objectText" "objectText \<noteq> []"
  by (simp_all add: objectText_def quot_def trim_def isWhiteSpace_def whiteSpaceChars_def
      startsWith_def endsWith_def replaceAll_def)

text \<open>
  Claim C10, at a failing input. The cell \<^verbatim>\<open>[{"toString":1}]\<close> in the \<^verbatim>\<open>Assign\<close> column is
  bracketed, \<^verbatim>\<open>JSON.parse\<close> accepts it and returns an array holding an object whose own
  \<^verbatim>\<open>toString\<close> member is the number 1; \<^verbatim>\<open>String\<close> of that object throws a TypeError outside
  the \<^verbatim>\<open>try\<close> block, so the row builder, and \<^verbatim>\<open>parseRawData\<close> with it, throws on that row.
\<close>

theorem parseRawData_throws:
  assumes "jsonParse env objectText = Some (JArr [JObj [(''toString'', JNum (Fin 1))]])"
  shows "parseRow env i (blank_row\<lparr>Assign := CStr objectText\<rparr>) = Inl TypeError
         \<and> parseRawData env [blank_row\<lparr>Assign := CStr objectText\<rparr>] = Inl TypeError"
proof -
  have raw: "rawAssignees env (CStr objectText) = JArr [JObj [(''toString'', JNum (Fin 1))]]"
    using assms by (simp add: rawAssignees_def objectText_brackets)
  have "cleanAssignees env (JArr [JObj [(''toString'', JNum (Fin 1))]]) = Inl TypeError"
    by (simp add: cleanAssignees_def flat_def)
  with raw have "parseAssignees env (blank_row\<lparr>Assign := CStr objectText\<rparr>) = Inl TypeError"
    by (simp add: parseAssignees_def)
  then have row: "parseRow env j (blank_row\<lparr>Assign := CStr objectText\<rparr>) = Inl TypeError" for j
    by (simp add: parseRow_def)
  then show ?thesis
    by (simp add: parseRawData_def enumerate_simps)
qed

theorem parseRawData_throws_witness:
  "parseRawData env_cet [blank_row\<lparr>Assign := CStr objectText\<rparr>] = Inl TypeError"
proof -
  have "jsonParse env_cet objectText = Some (JArr [JObj [(''toString'', JNum (Fin 1))]])"
    by (simp add: env_cet_def objectText_def pairText_def quot_def)
  from parseRawData_throws [OF this] show ?thesis
    by simp
qed

subsection \<open>Decimal digits\<close>

lemma show_nat_digit: "n < 10 \<Longrightarrow> show_nat n = [digitChars ! n]"
  by (simp add: show_nat.simps)

lemma show_nat_step: "10 \<le> n \<Longrightarrow> show_nat n = show_nat (n div 10) @ [digitChars ! (n mod 10)]"
  by (subst show_nat.simps) simp

lemma show_nat_nonempty: "show_nat n \<noteq> []"
  by (subst show_nat.simps) simp

lemma toFixed_one:
  assumes "\<bar>d\<bar> < 10 ^ 21" and "n = nat \<lfloor>\<bar>d\<bar> * 10 + 1 / 2\<rfloor>"
  shows "toFixed env 1 (Fin d) =
           (if d < 0 then ''-'' else []) @ show_nat (n div 10) @ ''.'' @ show_nat (n mod 10)"
proof (cases "n < 10")
  case True
  then have "show_nat n = [digitChars ! n]" "show_nat (n div 10) = ''0''"
    "show_nat (n mod 10) = [digitChars ! n]"
    by (simp_all add: show_nat_digit digitChars_def)
  with assms show ?thesis
    by (simp add: toFixed_def Let_def)
next
  case False
  then have step: "show_nat n = show_nat (n div 10) @ [digitChars ! (n mod 10)]"
    by (simp add: show_nat_step)
  have last: "show_nat (n mod 10) = [digitChars ! (n mod 10)]"
    by (simp add: show_nat_digit)
  have len: "Suc 0 \<le> length (show_nat (n div 10))"
    using show_nat_nonempty [of "n div 10"] by (cases "show_nat (n div 10)") simp_all
  from assms step last len show ?thesis
    by (simp add: toFixed_def Let_def Suc_diff_le)
qed

subsection \<open>Trend texts\<close>

lemma trend_text_value:
  "pctTrend env (Fin c) (Fin p) =
     (let d = (if p = 0 then (if c = 0 then 0 else 100) else (c - p) / p * 100);
          n = nat \<lfloor>\<bar>d\<bar> * 10 + 1 / 2\<rfloor>
      in if 10 ^ 21 \<le> \<bar>d\<bar> then (if 0 < d then ''+'' else []) @ toFixed env 1 (Fin d) @ ''%''
         else (if 0 < d then ''+'' else if d < 0 then ''-'' else [])
              @ show_nat (n div 10) @ ''.'' @ show_nat (n mod 10) @ ''%'')
   \<and> pctTrend env (Fin 0) (Fin 0) = ''0.0%''"
proof -
  define d where "d = (if p = 0 then (if c = 0 then 0 else 100) else (c - p) / p * 100)"
  define n where "n = nat \<lfloor>\<bar>d\<bar> * 10 + 1 / 2\<rfloor>"
  have diff: "getPctDiff (Fin c) (Fin p) = Fin d"
    by (simp add: getPctDiff_def d_def js_sub_def)
  have general: "pctTrend env (Fin c) (Fin p) =
      (if 10 ^ 21 \<le> \<bar>d\<bar> then (if 0 < d then ''+'' else []) @ toFixed env 1 (Fin d) @ ''%''
       else (if 0 < d then ''+'' else if d < 0 then ''-'' else [])
            @ show_nat (n div 10) @ ''.'' @ show_nat (n mod 10) @ ''%'')"
  proof (cases "10 ^ 21 \<le> \<bar>d\<bar>")
    case True
    then show ?thesis
      by (simp add: pctTrend_def formatTrend_def diff)
  next
    case False
    then have "\<bar>d\<bar> < 10 ^ 21" by simp
    from toFixed_one [OF this n_def] False show ?thesis
      by (simp add: pctTrend_def formatTrend_def diff)
  qed
  have zero: "pctTrend env (Fin 0) (Fin 0) = ''0.0%''"
    by (simp add: pctTrend_def formatTrend_def getPctDiff_def toFixed_def show_nat_digit
        digitChars_def)
  from general zero show ?thesis
    by (simp add: d_def n_def Let_def)
qed

lemma tenths_close:
  fixes d :: rat
  shows "\<bar>of_nat (nat \<lfloor>\<bar>d\<bar> * 10 + 1 / 2\<rfloor>) / 10 - \<bar>d\<bar>\<bar> \<le> 1 / 20"
proof -
  define y where "y = \<bar>d\<bar>"
  define k where "k = \<lfloor>y * 10 + 1 / 2\<rfloor>"
  have "0 \<le> y"
    by (simp add: y_def)
  then have "0 \<le> k"
    by (simp add: k_def)
  then have nat: "(of_nat (nat k) :: rat) = of_int k"
    by simp
  have "of_int k \<le> y * 10 + 1 / 2" "y * 10 + 1 / 2 < of_int k + 1"
    unfolding k_def by linarith+
  then have "\<bar>of_int k / 10 - y\<bar> \<le> 1 / 20"
    by linarith
  then show ?thesis
    unfolding y_def [symmetric] k_def [symmetric] nat .
qed

text \<open>
  Claim C8, as amended. For finite current and previous values the percentage delta \<open>d\<close> is
  \<open>((current - previous) / previous) * 100\<close>, except that for previous = 0 it is 0 when
  current is 0 too and 100 otherwise. The trend text is \<open>d\<close> written with one decimal
  place (for a number \<open>n\<close> of tenths within 0.05 of \<open>\<bar>d\<bar>\<close>: its integer part, a point and
  one digit; a delta of \<open>10^21\<close> or more is written as \<^verbatim>\<open>toFixed\<close> writes it), followed by the
  percent sign, with a \<open>+\<close> in front when \<open>d\<close> is strictly positive, a \<open>-\<close> when it is
  negative and no sign when it is zero. In particular previous = 0 and current = 0 give
  \<open>0.0%\<close>.
\<close>

theorem trend_text:
  "(let d = (if p = 0 then (if c = 0 then 0 else 100) else (c - p) / p * 100)
    in if 10 ^ 21 \<le> \<bar>d\<bar>
       then pctTrend env (Fin c) (Fin p)
              = (if 0 < d then ''+'' else []) @ toFixed env 1 (Fin d) @ ''%''
       else \<exists>n::nat.
              \<bar>of_nat n / 10 - \<bar>d\<bar>\<bar> \<le> 1 / 20
              \<and> pctTrend env (Fin c) (Fin p)
                  = (if 0 < d then ''+'' else if d < 0 then ''-'' else [])
                    @ show_nat (n div 10) @ ''.'' @ show_nat (n mod 10) @ ''%'')
   \<and> pctTrend env (Fin 0) (Fin 0) = ''0.0%''"
proof -
  define d where "d = (if p = 0 then (if c = 0 then 0 else 100) else (c - p) / p * 100)"
  define n where "n = nat \<lfloor>\<bar>d\<bar> * 10 + 1 / 2\<rfloor>"
  have val: "pctTrend env (Fin c) (Fin p) =
      (if 10 ^ 21 \<le> \<bar>d\<bar> then (if 0 < d then ''+'' else []) @ toFixed env 1 (Fin d) @ ''%''
       else (if 0 < d then ''+'' else if d < 0 then ''-'' else [])
            @ show_nat (n div 10) @ ''.'' @ show_nat (n mod 10) @ ''%'')"
    and zero: "pctTrend env (Fin 0) (Fin 0) = ''0.0%''"
    using trend_text_value [of env c p] by (simp_all add: d_def n_def Let_def)
  have close: "\<bar>of_nat n / 10 - \<bar>d\<bar>\<bar> \<le> 1 / 20"
    unfolding n_def by (rule tenths_close)
  have "if 10 ^ 21 \<le> \<bar>d\<bar>
        then pctTrend env (Fin c) (Fin p)
               = (if 0 < d then ''+'' else []) @ toFixed env 1 (Fin d) @ ''%''
        else \<exists>n::nat.
               \<bar>of_nat n / 10 - \<bar>d\<bar>\<bar> \<le> 1 / 20
               \<and> pctTrend env (Fin c) (Fin p)
                   = (if 0 < d then ''+'' else if d < 0 then ''-'' else [])
                     @ show_nat (n div 10) @ ''.'' @ show_nat (n mod 10) @ ''%''"
  proof (cases "10 ^ 21 \<le> \<bar>d\<bar>")
    case True
    with val show ?thesis
      by (simp only: if_True)
  next
    case False
    with val have "pctTrend env (Fin c) (Fin p)
                   = (if 0 < d then ''+'' else if d < 0 then ''-'' else [])
                     @ show_nat (n div 10) @ ''.'' @ show_nat (n mod 10) @ ''%''"
      by (simp only: if_False)
    with close have "\<exists>n::nat.
               \<bar>of_nat n / 10 - \<bar>d\<bar>\<bar> \<le> 1 / 20
               \<and> pctTrend env (Fin c) (Fin p)
                   = (if 0 < d then ''+'' else if d < 0 then ''-'' else [])
                     @ show_nat (n div 10) @ ''.'' @ show_nat (n mod 10) @ ''%''"
      by blast
    with False show ?thesis
      by (simp only: if_False)
  qed
  with zero show ?thesis
    unfolding d_def Let_def by (simp only: simp_thms)
qed

text \<open>A total of 120 after a total of 100 is a rise of 20 percent.\<close>

theorem trend_text_witness:
  "pctTrend env_cet (Fin 120) (Fin 100) = ''+20.0%''"
proof -
  have d: "(if (100::rat) = 0 then (if (120::rat) = 0 then 0 else 100)
            else (120 - 100) / 100 * 100) = (20::rat)"
    by simp
  have small: "\<not> 10 ^ 21 \<le> \<bar>20 :: rat\<bar>" and pos: "(0::rat) < 20"
    by simp_all
  from trend_text [where p = 100 and c = 120 and env = env_cet, THEN conjunct1]
  obtain n :: nat where n: "\<bar>of_nat n / 10 - \<bar>20 :: rat\<bar>\<bar> \<le> 1 / 20"
    and str: "pctTrend env_cet (Fin 120) (Fin 100)
                 = ''+'' @ show_nat (n div 10) @ ''.'' @ show_nat (n mod 10) @ ''%''"
    unfolding Let_def d by (simp only: small pos if_True if_False) blast
  from n have "(199 :: rat) < of_nat n \<and> (of_nat n :: rat) < 201"
    by linarith
  then have "199 < n" "n < 201"
    by simp_all
  then have "n = 200"
    by simp
  have "show_nat (200 div 10) = ''20''" "show_nat (200 mod 10) = ''0''"
    by code_simp+
  with str show ?thesis
    by (simp add: \<open>n = 200\<close>)
qed

text \<open>
  The claim as stated fails: the delta of two equal totals is 0, a non-negative value, and
  its text has no \<open>+\<close> sign.
\<close>

theorem trend_text_counterexample:
  "getPctDiff (Fin 5) (Fin 5) = Fin 0
   \<and> pctTrend env_cet (Fin 5) (Fin 5) = ''0.0%''
   \<and> pctTrend env_cet (Fin 5) (Fin 5) \<noteq> ''+0.0%''"
  by code_simp

subsection \<open>Reading back a number written with two decimals\<close>

lemma digit_cases:
  assumes "k < (10::nat)"
  shows "k = 0 \<or> k = 1 \<or> k = 2 \<or> k = 3 \<or> k = 4 \<or> k = 5 \<or> k = 6 \<or> k = 7 \<or> k = 8 \<or> k = 9"
  using assms by arith

lemma digitChars_nth:
  assumes "k < 10"
  shows "isDigit (digitChars ! k)" and "digitVal (digitChars ! k) = k"
    and "\<not> isWhiteSpace (digitChars ! k)" and "digitChars ! k \<noteq> CHR ''-''"
    and "digitChars ! k \<noteq> CHR ''+''" and "digitChars ! k \<noteq> CHR ''I''"
  using digit_cases [OF assms]
  by (auto simp: isDigit_def digitVal_def digitChars_def isWhiteSpace_def whiteSpaceChars_def)

lemma isDigit_facts:
  assumes "isDigit c"
  shows "\<not> isWhiteSpace c" and "c \<noteq> CHR ''-''" and "c \<noteq> CHR ''+''" and "c \<noteq> CHR ''I''"
    and "c \<noteq> CHR ''.''"
  using assms
  by (auto simp: isDigit_def digitChars_def isWhiteSpace_def whiteSpaceChars_def)

lemma show_nat_digits: "\<forall>c \<in> set (show_nat n). isDigit c"
proof (induction n rule: show_nat.induct)
  case (1 n)
  show ?case
  proof (cases "n < 10")
    case True
    then show ?thesis
      by (simp add: show_nat_digit digitChars_nth)
  next
    case False
    with 1 show ?thesis
      by (simp add: show_nat_step digitChars_nth)
  qed
qed

lemma digits_foldl: "foldl digitStep a ds = a * 10 ^ length ds + foldl digitStep 0 ds"
proof (induction ds arbitrary: a)
  case Nil
  show ?case by simp
next
  case (Cons d ds)
  have A: "foldl digitStep (digitStep a d) ds
          = digitStep a d * 10 ^ length ds + foldl digitStep 0 ds"
    by (rule Cons.IH)
  have B: "foldl digitStep (digitStep 0 d) ds
          = digitStep 0 d * 10 ^ length ds + foldl digitStep 0 ds"
    by (rule Cons.IH)
  have step: "digitStep a d = 10 * a + digitVal d" "digitStep 0 d = digitVal d"
    by (simp_all add: digitStep_def)
  show ?case
    unfolding foldl_Cons A B by (simp add: step algebra_simps)
qed

lemma digitsVal_append: "digitsVal (xs @ ys) = digitsVal xs * 10 ^ length ys + digitsVal ys"
  by (simp add: digitsVal_def digits_foldl [of "foldl digitStep 0 xs"])

lemma digitsVal_show_nat: "digitsVal (show_nat n) = n"
proof (induction n rule: show_nat.induct)
  case (1 n)
  show ?case
  proof (cases "n < 10")
    case True
    then show ?thesis
      by (simp add: show_nat_digit digitsVal_def digitStep_def digitChars_nth)
  next
    case False
    then have "digitsVal (show_nat n) = digitsVal (show_nat (n div 10)) * 10 + n mod 10"
      by (simp add: show_nat_step digitsVal_append)
        (simp add: digitsVal_def digitStep_def digitChars_nth)
    with False 1 show ?thesis
      by simp
  qed
qed

lemma digitsVal_zeros: "digitsVal (replicate j CHR ''0'' @ ds) = digitsVal ds"
proof -
  have "digitsVal (replicate j CHR ''0'') = 0"
    by (induction j) (simp_all add: digitsVal_def digitStep_def digitVal_def digitChars_def)
  then show ?thesis
    by (simp add: digitsVal_append)
qed

lemma takeWhile_digits:
  assumes "\<forall>c \<in> set ds. isDigit c" and "rest = [] \<or> \<not> isDigit (hd rest)"
  shows "takeWhile isDigit (ds @ rest) = ds" and "dropWhile isDigit (ds @ rest) = rest"
  using assms by (cases rest; simp add: takeWhile_append2 dropWhile_append2)+

lemma parseUnsigned_fixed:
  assumes ip: "\<forall>c \<in> set ip. isDigit c" "ip \<noteq> []"
    and fp: "\<forall>c \<in> set fp. isDigit c"
  shows "parseUnsigned b (ip @ ''.'' @ fp) =
           Fin ((if b then - 1 else 1)
                * (of_nat (digitsVal ip) + of_nat (digitsVal fp) / 10 ^ length fp))"
proof -
  have nd: "\<not> isDigit CHR ''.''"
    by (simp add: isDigit_def digitChars_def)
  have tw: "takeWhile isDigit (ip @ ''.'' @ fp) = ip"
    "dropWhile isDigit (ip @ ''.'' @ fp) = ''.'' @ fp"
    using takeWhile_digits [OF ip(1), of "''.'' @ fp"] nd by simp_all
  have tw2: "takeWhile isDigit fp = fp" "dropWhile isDigit fp = []"
    using fp by (simp_all add: takeWhile_eq_all_conv [THEN iffD2])
  have ex: "exponentPart [] = 0"
    by (simp add: exponentPart_def startsWith_def)
  show ?thesis
    unfolding parseUnsigned_def tw
    using ip(2) by (simp add: tw2 ex startsWith_def)
qed

lemma parseFloat_fixed:
  assumes ip: "\<forall>c \<in> set ip. isDigit c" "ip \<noteq> []"
    and fp: "\<forall>c \<in> set fp. isDigit c"
    and sg: "sg = [] \<or> sg = ''-''"
  shows "parseFloat (sg @ ip @ ''.'' @ fp) =
           Fin ((if sg = [] then 1 else - 1)
                * (of_nat (digitsVal ip) + of_nat (digitsVal fp) / 10 ^ length fp))"
proof -
  obtain d ds where ipd: "ip = d # ds" and d: "isDigit d"
    using ip by (cases ip) auto
  let ?s2 = "ip @ ''.'' @ fp"
  have noinf: "take 8 ?s2 \<noteq> ''Infinity''"
    using isDigit_facts(4) [OF d] by (simp add: ipd)
  from sg show ?thesis
  proof
    assume e: "sg = []"
    have "trimStart ?s2 = ?s2" "\<not> startsWith ?s2 CHR ''-''" "\<not> startsWith ?s2 CHR ''+''"
      using isDigit_facts [OF d] by (simp_all add: trimStart_def startsWith_def ipd)
    with noinf have "parseFloat ?s2 = parseUnsigned False ?s2"
      by (simp add: parseFloat_def)
    with parseUnsigned_fixed [OF ip fp, of False] show ?thesis
      by (simp add: e)
  next
    assume e: "sg = ''-''"
    have "trimStart (''-'' @ ?s2) = ''-'' @ ?s2" "startsWith (''-'' @ ?s2) CHR ''-''"
      by (simp_all add: trimStart_def startsWith_def isWhiteSpace_def whiteSpaceChars_def)
    with noinf have "parseFloat (''-'' @ ?s2) = parseUnsigned True ?s2"
      by (simp add: parseFloat_def)
    with parseUnsigned_fixed [OF ip fp, of True] show ?thesis
      by (simp add: e)
  qed
qed

lemma parseFloat_toFixed2:
  assumes "\<bar>q\<bar> < 10 ^ 21"
  shows "parseFloat (toFixed env 2 (Fin q)) = Fin (round2 q)"
proof -
  define n where "n = nat \<lfloor>\<bar>q\<bar> * 100 + 1 / 2\<rfloor>"
  define m where "m = replicate (Suc 2 - length (show_nat n)) CHR ''0'' @ show_nat n"
  define ip where "ip = take (length m - 2) m"
  define fp where "fp = drop (length m - 2) m"
  define sg where "sg = (if q < 0 then ''-'' else [])"
  have len: "3 \<le> length m"
    by (simp add: m_def)
  have zero: "isDigit CHR ''0''"
    by (simp add: isDigit_def digitChars_def)
  have digs: "\<forall>c \<in> set m. isDigit c"
  proof
    fix c
    assume "c \<in> set m"
    then have "c = CHR ''0'' \<or> c \<in> set (show_nat n)"
      by (auto simp: m_def)
    with zero show_nat_digits [of n] show "isDigit c"
      by blast
  qed
  have ne: "m \<noteq> []"
    using len by (cases m) simp_all
  have ipfp: "ip @ fp = m" "length fp = 2" "ip \<noteq> []"
    using len ne by (simp_all add: ip_def fp_def)
  have d1: "\<forall>c \<in> set ip. isDigit c"
    using digs in_set_takeD [of _ "length m - 2" m] by (auto simp: ip_def)
  have d2: "\<forall>c \<in> set fp. isDigit c"
    using digs in_set_dropD [of _ "length m - 2" m] by (auto simp: fp_def)
  have "digitsVal m = n"
    by (simp add: m_def digitsVal_zeros digitsVal_show_nat)
  then have val: "digitsVal ip * 100 + digitsVal fp = n"
    using digitsVal_append [of ip fp] by (simp add: ipfp)
  have "(of_nat n :: rat) = of_nat (digitsVal ip) * 100 + of_nat (digitsVal fp)"
    unfolding val [symmetric] by simp
  then have frac: "(of_nat (digitsVal ip) + of_nat (digitsVal fp) / 10 ^ length fp :: rat)
                     = of_nat n / 100"
    by (simp add: ipfp(2))
  have str: "toFixed env 2 (Fin q) = sg @ ip @ ''.'' @ fp"
    using assms
    by (simp add: toFixed_def Let_def n_def m_def ip_def fp_def sg_def)
  have sign: "(if sg = [] then 1 else - 1) * (of_nat n / 100 :: rat) = round2 q"
    by (simp add: sg_def round2_def n_def)
  have "sg = [] \<or> sg = ''-''"
    by (simp add: sg_def)
  from parseFloat_fixed [OF d1 ipfp(3) d2 this] show ?thesis
    unfolding str frac sign .
qed

subsection \<open>Resolution time\<close>

lemma TimeClip_range: "TimeClip x = Some t \<Longrightarrow> \<bar>t\<bar> \<le> 8640000000000000"
  by (auto simp: TimeClip_def split: if_splits)

lemma newDateFromParts_range:
  "newDateFromParts env y m d h mi s = Some t \<Longrightarrow> \<bar>t\<bar> \<le> 8640000000000000"
  by (auto simp: newDateFromParts_def Let_def dest: TimeClip_range
      split: option.splits list.splits)

lemma manualParse_range: "manualParse env s = Some t \<Longrightarrow> \<bar>t\<bar> \<le> 8640000000000000"
  by (auto simp: manualParse_def Let_def dest: newDateFromParts_range
      split: list.splits if_splits)

lemma parseCustomDate_range:
  assumes "parseCustomDate env v = Some t"
  shows "\<bar>t\<bar> \<le> 8640000000000000"
proof (cases "\<not> truthy v \<or> v = CStr ''-''")
  case True
  with assms show ?thesis
    by (auto simp: parseCustomDate_def)
next
  case False
  show ?thesis
  proof (cases "\<exists>d. v = CDate d")
    case True
    with assms False show ?thesis
      by (auto simp: parseCustomDate_def getTime_def dest: TimeClip_range
          split: option.splits)
  next
    case notdate: False
    let ?s = "ToString env v"
    have rest: "parseCustomDate env v =
        (if trim ?s = [] \<or> toLowerCase ?s = ''null'' then Some 0
         else (case newDateFromString env ?s of Some u \<Rightarrow> Some u | None \<Rightarrow> manualParse env ?s))"
      using False notdate
      by (cases v) (auto simp: parseCustomDate_def Let_def cong: option.case_cong)
    from assms show ?thesis
      unfolding rest
      by (auto simp: newDateFromString_def dest: TimeClip_range manualParse_range
          split: if_splits option.splits)
  qed
qed

lemma round2_close: "\<bar>round2 x - x\<bar> \<le> 1 / 200 \<and> (\<exists>k::int. round2 x = of_int k / 100)"
proof -
  define k where "k = \<lfloor>\<bar>x\<bar> * 100 + 1 / 2\<rfloor>"
  define y where "y = \<bar>x\<bar>"
  have lo: "of_int k \<le> y * 100 + 1 / 2" and hi: "y * 100 + 1 / 2 < of_int k + 1"
    unfolding k_def y_def by linarith+
  have "\<bar>of_int k / 100 - y\<bar> \<le> 1 / 200"
    using lo hi by linarith
  then have "\<bar>of_int k / 100 - \<bar>x\<bar>\<bar> \<le> 1 / 200"
    by (simp add: y_def)
  moreover have "round2 x = (if x < 0 then - (of_int k / 100) else of_int k / 100)"
    by (simp add: round2_def k_def)
  ultimately have "\<bar>round2 x - x\<bar> \<le> 1 / 200"
    by (auto simp: abs_if split: if_splits)
  moreover have "\<exists>j::int. round2 x = of_int j / 100"
  proof (cases "x < 0")
    case True
    then have "round2 x = of_int (- k) / 100"
      by (simp add: round2_def k_def)
    then show ?thesis ..
  next
    case False
    then have "round2 x = of_int k / 100"
      by (simp add: round2_def k_def)
    then show ?thesis ..
  qed
  ultimately show ?thesis by simp
qed

lemma hours_bound:
  assumes "\<bar>c\<bar> \<le> 8640000000000000" and "\<bar>r\<bar> \<le> (8640000000000000::int)"
  shows "\<bar>of_int (r - c) / (1000 * 60 * 60) :: rat\<bar> < 10 ^ 21"
proof -
  have "\<bar>r - c\<bar> \<le> 17280000000000000"
    using assms by linarith
  then have "\<bar>of_int (r - c) :: rat\<bar> \<le> 17280000000000000"
    by (metis of_int_abs of_int_le_iff of_int_numeral)
  then show ?thesis
    by (simp add: field_simps)
qed

lemma rounded_hours:
  assumes "\<bar>h\<bar> < 10 ^ 21"
  shows "Math_max (Fin 0) (parseFloat (toFixed env 2 (Fin h))) = Fin (max 0 (round2 h))"
  by (simp add: parseFloat_toFixed2 [OF assms] max_def)

lemma hours_value:
  assumes "parseRow env i row = Inr t"
  shows "\<exists>q. resolutionTimeHours t = Fin q \<and> 0 \<le> q \<and>
           q = (case createdAt t of
                  Some c \<Rightarrow>
                    (case resolvedAt t of
                       Some (Some r) \<Rightarrow>
                         if 0 < c \<and> 0 < r
                         then max 0 (round2 (of_int (r - c) / (1000 * 60 * 60))) else 0
                     | _ \<Rightarrow> 0)
                | None \<Rightarrow> 0)"
proof -
  let ?h = "resolutionHours (createdAt t) (resolvedAt t)"
  have created: "createdAt t = parseCustomDate env (Creation row)"
    and resolved: "resolvedAt t = parseResolved env row"
    and hours: "resolutionTimeHours t = Math_max (Fin 0) (parseFloat (toFixed env 2 ?h))"
    using parseRow_fields [OF assms] by simp_all
  have zero: "Math_max (Fin 0) (parseFloat (toFixed env 2 (Fin 0))) = Fin 0"
    using rounded_hours [of 0 env] by (simp add: round2_def)
  show ?thesis
  proof (cases "\<exists>c r. createdAt t = Some c \<and> resolvedAt t = Some (Some r) \<and> 0 < c \<and> 0 < r")
    case True
    then obtain c r where cr: "createdAt t = Some c" "resolvedAt t = Some (Some r)" "0 < c" "0 < r"
      by blast
    have "\<bar>c\<bar> \<le> 8640000000000000"
      using cr(1) created parseCustomDate_range by metis
    moreover have "parseCustomDate env (ResolutionBy row) = Some r"
      using cr(2) resolved by (simp add: parseResolved_def split: if_splits)
    then have "\<bar>r\<bar> \<le> 8640000000000000"
      by (rule parseCustomDate_range)
    ultimately have "\<bar>of_int (r - c) / (1000 * 60 * 60) :: rat\<bar> < 10 ^ 21"
      by (rule hours_bound)
    from rounded_hours [OF this, of env] cr hours show ?thesis
      by (simp add: resolutionHours_def)
  next
    case False
    then have "?h = Fin 0"
      by (auto simp: resolutionHours_def split: option.splits)
    with hours zero False show ?thesis
      by (auto split: option.splits)
  qed
qed

text \<open>
  Claim C1. The resolution time of a built ticket is a number that is not negative. When
  the creation date and the resolution date are both valid instants strictly after the
  epoch, it is their difference in hours rounded to two decimal places (a multiple
  \<open>k / 100\<close> of one hundredth that is within 0.005 of the difference), with a negative
  value clamped to 0; in every other case it is 0.
\<close>

theorem resolution_hours:
  assumes "parseRow env i row = Inr t"
  shows "\<exists>q. resolutionTimeHours t = Fin q \<and> 0 \<le> q \<and>
           (case createdAt t of
              Some c \<Rightarrow>
                (case resolvedAt t of
                   Some (Some r) \<Rightarrow>
                     if 0 < c \<and> 0 < r
                     then \<exists>k::int.
                            \<bar>of_int k / 100 - of_int (r - c) / (1000 * 60 * 60) :: rat\<bar> \<le> 1 / 200
                            \<and> q = max 0 (of_int k / 100)
                     else q = 0
                 | _ \<Rightarrow> q = 0)
            | None \<Rightarrow> q = 0)"
proof -
  from hours_value [OF assms] obtain q where q: "resolutionTimeHours t = Fin q" "0 \<le> q"
    and val: "q = (case createdAt t of
                  Some c \<Rightarrow>
                    (case resolvedAt t of
                       Some (Some r) \<Rightarrow>
                         if 0 < c \<and> 0 < r
                         then max 0 (round2 (of_int (r - c) / (1000 * 60 * 60))) else 0
                     | _ \<Rightarrow> 0)
                | None \<Rightarrow> 0)"
    by blast
  have rounded: "\<exists>k::int. \<bar>of_int k / 100 - h\<bar> \<le> 1 / 200 \<and> round2 h = of_int k / 100" for h
  proof -
    from round2_close [of h] obtain k :: int
      where "round2 h = of_int k / 100" and "\<bar>round2 h - h\<bar> \<le> 1 / 200"
      by blast
    then have "\<bar>of_int k / 100 - h\<bar> \<le> 1 / 200 \<and> round2 h = of_int k / 100"
      by (simp only: simp_thms)
    then show ?thesis ..
  qed
  have "case createdAt t of
          Some c \<Rightarrow>
            (case resolvedAt t of
               Some (Some r) \<Rightarrow>
                 if 0 < c \<and> 0 < r
                 then \<exists>k::int.
                        \<bar>of_int k / 100 - of_int (r - c) / (1000 * 60 * 60) :: rat\<bar> \<le> 1 / 200
                        \<and> q = max 0 (of_int k / 100)
                 else q = 0
             | _ \<Rightarrow> q = 0)
        | None \<Rightarrow> q = 0"
  proof (cases "createdAt t")
    case None
    with val show ?thesis by simp
  next
    case c: (Some c)
    show ?thesis
    proof (cases "resolvedAt t")
      case None
      with val c show ?thesis by simp
    next
      case outer: (Some d)
      show ?thesis
      proof (cases d)
        case None
        with val c outer show ?thesis by simp
      next
        case r: (Some r)
        show ?thesis
        proof (cases "0 < c \<and> 0 < r")
          case False
          with val c outer r show ?thesis
            by (simp add: False)
        next
          case True
          with val c outer r
          have "q = max 0 (round2 (of_int (r - c) / (1000 * 60 * 60)))"
            by simp
          with rounded [of "of_int (r - c) / (1000 * 60 * 60)"] True c outer r
          show ?thesis
            by auto
        qed
      qed
    qed
  qed
  with q show ?thesis
    by blast
qed

text \<open>
  A ticket created on March 15, 2024 and resolved on March 16 at 06:30 took 30.5 hours.
\<close>

theorem resolution_hours_witness:
  "\<exists>t. parseRow env_cet 0
          (blank_row\<lparr>Status := CStr ''Resolved'', Creation := CStr ''15-03-2024'',
                     ResolutionBy := CStr ''16-03-2024 06:30:00''\<rparr>) = Inr t
       \<and> resolutionTimeHours t = Fin (61 / 2)"
proof -
  let ?row = "blank_row\<lparr>Status := CStr ''Resolved'', Creation := CStr ''15-03-2024'',
                        ResolutionBy := CStr ''16-03-2024 06:30:00''\<rparr>"
  have "parseAssignees env_cet ?row = Inr []"
    by (rule blank_assignees_any) (simp_all add: blank_row_def)
  then obtain t where t: "parseRow env_cet 0 ?row = Inr t"
    using parseRow_total by blast
  have c: "parseCustomDate env_cet (Creation ?row) = Some 1710457200000"
    by code_simp
  have r: "parseResolved env_cet ?row = Some (Some 1710567000000)"
    by code_simp
  have dates: "createdAt t = Some 1710457200000" "resolvedAt t = Some (Some 1710567000000)"
    using parseRow_fields(4,5) [OF t] c r by simp_all
  have pos: "(0::int) < 1710457200000 \<and> (0::int) < 1710567000000"
    by simp
  from resolution_hours [OF t]
  have "\<exists>q. resolutionTimeHours t = Fin q \<and> 0 \<le> q \<and>
          (\<exists>k::int.
             \<bar>of_int k / 100 - of_int (1710567000000 - 1710457200000) / (1000 * 60 * 60) :: rat\<bar>
               \<le> 1 / 200
             \<and> q = max 0 (of_int k / 100))"
    unfolding dates option.case by (simp only: pos if_True simp_thms)
  then obtain q and k :: int where q: "resolutionTimeHours t = Fin q"
    and k: "\<bar>of_int k / 100 - of_int (1710567000000 - 1710457200000) / (1000 * 60 * 60) :: rat\<bar>
              \<le> 1 / 200"
    and qk: "q = max 0 (of_int k / 100)"
    by blast
  from k have "\<bar>of_int k / 100 - 61 / 2 :: rat\<bar> \<le> 1 / 200"
    by simp
  then have "(3049 :: rat) < of_int k \<and> (of_int k :: rat) < 3051"
    by linarith
  then have "3049 < k" "k < 3051"
    by simp_all
  then have "k = 3050"
    by simp
  with q qk have "resolutionTimeHours t = Fin (61 / 2)"
    by simp
  with t show ?thesis
    by blast
qed

subsection \<open>Assignees\<close>

lemma trim_idem: "trim (trim s) = trim s"
proof -
  define A where "A = dropWhile isWhiteSpace s"
  define B where "B = dropWhile isWhiteSpace (rev A)"
  have trim: "trim s = rev B"
    by (simp add: trim_def A_def B_def)
  have "dropWhile isWhiteSpace (rev B) = rev B"
  proof (cases "B = []")
    case True
    then show ?thesis by simp
  next
    case False
    have "rev A = takeWhile isWhiteSpace (rev A) @ B"
      by (simp add: B_def)
    with False have "last B = last (rev A)"
      by (metis last_appendR)
    moreover from False have "A \<noteq> []"
      by (auto simp: B_def)
    ultimately have "last B = hd A"
      by (simp add: last_rev)
    moreover have "\<not> isWhiteSpace (hd A)"
      using \<open>A \<noteq> []\<close> unfolding A_def by (rule hd_dropWhile)
    ultimately have "\<not> isWhiteSpace (hd (rev B))"
      using False by (simp add: hd_rev)
    with False show ?thesis
      by (cases "rev B") simp_all
  qed
  then have "trim (rev B) = rev (dropWhile isWhiteSpace B)"
    by (simp add: trim_def)
  also have "dropWhile isWhiteSpace B = B"
    by (simp add: B_def)
  finally show ?thesis
    by (simp add: trim)
qed

lemma sequence_Inr_map: "sequence (map Inr xs) = Inr xs"
  by (induction xs) simp_all

lemma nonBlank_fun: "(\<lambda>a. trim a \<noteq> []) = nonBlank"
  by (simp add: fun_eq_iff nonBlank_def)

lemma clean_strings: "cleanAssignees env (JArr (map JStr ss)) = Inr (filter nonBlank ss)"
proof -
  have fl: "flat (map JStr ss) = map JStr ss"
    by (induction ss) (simp_all add: flat_def)
  have "sequence (map (\<lambda>a. if truthy_json a then ToString_json env a else Inr [])
                      (map JStr ss)) = Inr ss"
    by (induction ss) simp_all
  then show ?thesis
    unfolding cleanAssignees_def json.case fl by (simp add: nonBlank_fun)
qed

lemma clean_strings_comp:
  "cleanAssignees env (JArr (map (JStr \<circ> f) xs)) = Inr (filter nonBlank (map f xs))"
  using clean_strings [of env "map f xs"] by simp

lemma clean_array:
  assumes "cleanAssignees env v = Inr as"
  shows "\<exists>xs ss. v = JArr xs
           \<and> sequence (map (\<lambda>a. if truthy_json a then ToString_json env a else Inr [])
                             (flat xs)) = Inr ss
           \<and> as = filter nonBlank ss"
  using assms
  by (cases v) (auto simp: cleanAssignees_def nonBlank_fun split: sum.splits)

lemma clean_nonBlank:
  assumes "cleanAssignees env v = Inr as"
  shows "\<forall>a \<in> set as. nonBlank a"
  using clean_array [OF assms] by auto

lemma rawAssignees_cases:
  "rawAssignees env c =
     (if \<not> truthy c then JArr []
      else if \<exists>xs. c = CArr xs
        then JArr (map JStr (map (ToString env) (case c of CArr xs \<Rightarrow> xs | _ \<Rightarrow> [])))
      else
        (let str = trim (ToString env c)
         in if startsWith str CHR ''['' \<and> endsWith str CHR '']'' then
              (case jsonParse env (replaceAll CHR 0x27 CHR 0x22 str) of
                 Some v \<Rightarrow> v
               | None \<Rightarrow> JArr (map JStr [str]))
            else if CHR '','' \<in> set str then JArr (map JStr (map trim (split_on CHR '','' str)))
            else JArr (map JStr [str])))"
  by (cases c) (auto simp: rawAssignees_def Let_def cong: option.case_cong)

lemma rawAssignees_scalar:
  assumes "truthy c" and "\<forall>xs. c \<noteq> CArr xs"
  shows "rawAssignees env c =
     (if startsWith (trim (ToString env c)) CHR ''['' \<and> endsWith (trim (ToString env c)) CHR '']''
      then
        (case jsonParse env (replaceAll CHR 0x27 CHR 0x22 (trim (ToString env c))) of
           Some v \<Rightarrow> v
         | None \<Rightarrow> JArr (map JStr [trim (ToString env c)]))
      else if CHR '','' \<in> set (trim (ToString env c))
        then JArr (map JStr (map trim (split_on CHR '','' (trim (ToString env c)))))
      else JArr (map JStr [trim (ToString env c)]))"
  using assms by (simp add: rawAssignees_cases Let_def)

lemma raw_bracket_fail:
  assumes "truthy c" and "\<forall>xs. c \<noteq> CArr xs"
    and "startsWith (trim (ToString env c)) CHR ''['' \<and> endsWith (trim (ToString env c)) CHR '']''"
    and "jsonParse env (replaceAll CHR 0x27 CHR 0x22 (trim (ToString env c))) = None"
  shows "cleanAssignees env (rawAssignees env c) = Inr [trim (ToString env c)]"
proof -
  have "trim (ToString env c) \<noteq> []"
    using assms(3) by (auto simp: startsWith_def)
  then have "nonBlank (trim (ToString env c))"
    by (simp add: nonBlank_def trim_idem)
  moreover have "rawAssignees env c = JArr (map JStr [trim (ToString env c)])"
    using assms by (simp add: rawAssignees_scalar)
  ultimately show ?thesis
    by (simp only: clean_strings) simp
qed

lemma raw_bracket_parsed:
  assumes "truthy c" and "\<forall>xs. c \<noteq> CArr xs"
    and "startsWith (trim (ToString env c)) CHR ''['' \<and> endsWith (trim (ToString env c)) CHR '']''"
    and "jsonParse env (replaceAll CHR 0x27 CHR 0x22 (trim (ToString env c))) = Some v"
  shows "rawAssignees env c = v"
  using assms by (simp add: rawAssignees_scalar)

lemma raw_comma:
  assumes "truthy c" and "\<forall>xs. c \<noteq> CArr xs"
    and "\<not> (startsWith (trim (ToString env c)) CHR ''[''
            \<and> endsWith (trim (ToString env c)) CHR '']'')"
    and "CHR '','' \<in> set (trim (ToString env c))"
  shows "cleanAssignees env (rawAssignees env c) =
           Inr (filter nonBlank (map trim (split_on CHR '','' (trim (ToString env c)))))"
proof -
  have "rawAssignees env c =
          JArr (map JStr (map trim (split_on CHR '','' (trim (ToString env c)))))"
    using assms(3,4) by (simp only: rawAssignees_scalar [OF assms(1,2)] if_False if_True)
  then show ?thesis
    by (simp only: clean_strings)
qed

lemma raw_single:
  assumes "truthy c" and "\<forall>xs. c \<noteq> CArr xs"
    and "\<not> (startsWith (trim (ToString env c)) CHR ''[''
            \<and> endsWith (trim (ToString env c)) CHR '']'')"
    and "CHR '','' \<notin> set (trim (ToString env c))"
  shows "cleanAssignees env (rawAssignees env c) = Inr (filter nonBlank [trim (ToString env c)])"
proof -
  have "rawAssignees env c = JArr (map JStr [trim (ToString env c)])"
    using assms(3,4) by (simp only: rawAssignees_scalar [OF assms(1,2)] if_False if_True)
  then show ?thesis
    by (simp only: clean_strings)
qed

text \<open>
  Claim C5, as amended. The assignees of a built ticket are an ordered list of strings
  obtained as the claim describes: the strings of the elements of an array value; for a
  bracketed string the value that \<^verbatim>\<open>JSON.parse\<close> returns after the single quotes are replaced
  by double quotes (an array), or the whole trimmed string as the one assignee when the
  parse fails; for another string with a comma its parts, each trimmed; otherwise the
  trimmed string alone; then flattened one level, converted to strings (a falsy entry
  becomes the empty string) and without the entries that are empty or white space only.
  Each entry taken from the \<^verbatim>\<open>Assign\<close> cell is therefore not blank; the entries of a
  comma-separated or single string are trimmed, those of an array or of a bracketed string
  are kept as they stand. When that list is empty and an owner is present, the list is the
  singleton of the owner's string as it stands.
\<close>

theorem assignees_rule:
  assumes "parseRow env i row = Inr t"
  shows "\<exists>as. cleanAssignees env (rawAssignees env (Assign row)) = Inr as
          \<and> (\<forall>a \<in> set as. nonBlank a)
          \<and> assignees t =
              (if as = [] \<and> truthy (Owner row) then [ToString env (Owner row)] else as)
          \<and> (\<not> truthy (Assign row) \<longrightarrow> as = [])
          \<and> (\<forall>xs. Assign row = CArr xs \<longrightarrow> as = filter nonBlank (map (ToString env) xs))
          \<and> (truthy (Assign row) \<and> (\<forall>xs. Assign row \<noteq> CArr xs) \<longrightarrow>
               (let str = trim (ToString env (Assign row))
                in if startsWith str CHR ''['' \<and> endsWith str CHR '']'' then
                     (case jsonParse env (replaceAll CHR 0x27 CHR 0x22 str) of
                        None \<Rightarrow> as = [str]
                      | Some v \<Rightarrow>
                          (\<exists>xs ss. v = JArr xs
                             \<and> sequence (map (\<lambda>a. if truthy_json a then ToString_json env a
                                                     else Inr []) (flat xs)) = Inr ss
                             \<and> as = filter nonBlank ss))
                   else if CHR '','' \<in> set str then
                     as = filter nonBlank (map trim (split_on CHR '','' str))
                     \<and> (\<forall>a \<in> set as. trim a = a)
                   else as = filter nonBlank [str] \<and> (\<forall>a \<in> set as. trim a = a)))"
proof -
  let ?raw = "rawAssignees env (Assign row)"
  define str where "str = trim (ToString env (Assign row))"
  have "parseAssignees env row = Inr (assignees t)"
    using assms by (rule parseRow_fields)
  then obtain as where clean: "cleanAssignees env ?raw = Inr as"
    and owner: "assignees t =
      (if as = [] \<and> truthy (Owner row) then [ToString env (Owner row)] else as)"
    by (auto simp: parseAssignees_def split: sum.splits)
  have nb: "\<forall>a \<in> set as. nonBlank a"
    using clean by (rule clean_nonBlank)
  have absent: "as = []" if "\<not> truthy (Assign row)"
    using that clean by (simp add: rawAssignees_cases clean_strings [of env "[]", simplified])
  have array: "as = filter nonBlank (map (ToString env) xs)" if "Assign row = CArr xs" for xs
    using that clean by (simp add: rawAssignees_cases clean_strings_comp)
  have scalar: "if startsWith str CHR ''['' \<and> endsWith str CHR '']'' then
                  (case jsonParse env (replaceAll CHR 0x27 CHR 0x22 str) of
                     None \<Rightarrow> as = [str]
                   | Some v \<Rightarrow>
                       (\<exists>xs ss. v = JArr xs
                          \<and> sequence (map (\<lambda>a. if truthy_json a then ToString_json env a
                                                  else Inr []) (flat xs)) = Inr ss
                          \<and> as = filter nonBlank ss))
                else if CHR '','' \<in> set str then
                  as = filter nonBlank (map trim (split_on CHR '','' str))
                  \<and> (\<forall>a \<in> set as. trim a = a)
                else as = filter nonBlank [str] \<and> (\<forall>a \<in> set as. trim a = a)"
    if tr: "truthy (Assign row)" and na: "\<forall>xs. Assign row \<noteq> CArr xs"
  proof (cases "startsWith str CHR ''['' \<and> endsWith str CHR '']''")
    case bracket: True
    show ?thesis
    proof (cases "jsonParse env (replaceAll CHR 0x27 CHR 0x22 str)")
      case None
      have "cleanAssignees env ?raw = Inr [str]"
        unfolding str_def
        by (rule raw_bracket_fail [OF tr na bracket [unfolded str_def] None [unfolded str_def]])
      with clean have "as = [str]"
        by simp
      then show ?thesis
        by (simp only: bracket None if_True option.case simp_thms)
    next
      case (Some v)
      have "?raw = v"
        by (rule raw_bracket_parsed [OF tr na bracket [unfolded str_def] Some [unfolded str_def]])
      with clean have "cleanAssignees env v = Inr as"
        by simp
      from clean_array [OF this] show ?thesis
        by (simp only: bracket Some if_True option.case simp_thms)
    qed
  next
    case nobracket: False
    show ?thesis
    proof (cases "CHR '','' \<in> set str")
      case comma: True
      have "cleanAssignees env ?raw = Inr (filter nonBlank (map trim (split_on CHR '','' str)))"
        unfolding str_def
        by (rule raw_comma [OF tr na nobracket [unfolded str_def] comma [unfolded str_def]])
      with clean have eq: "as = filter nonBlank (map trim (split_on CHR '','' str))"
        by simp
      then have "\<forall>a \<in> set as. trim a = a"
        by (auto simp: trim_idem)
      with eq show ?thesis
        by (simp only: nobracket comma if_True if_False simp_thms)
    next
      case nocomma: False
      have "cleanAssignees env ?raw = Inr (filter nonBlank [str])"
        unfolding str_def
        by (rule raw_single [OF tr na nobracket [unfolded str_def] nocomma [unfolded str_def]])
      with clean have eq: "as = filter nonBlank [str]"
        by simp
      have "trim str = str"
        by (simp add: str_def trim_idem)
      with eq have "\<forall>a \<in> set as. trim a = a"
        by (cases "nonBlank str") simp_all
      with eq show ?thesis
        by (simp only: nobracket nocomma if_False simp_thms)
    qed
  qed
  from clean nb owner absent array scalar show ?thesis
    unfolding str_def Let_def by blast
qed

text \<open>
  The bracketed cell \<^verbatim>\<open>['a@x.com', 'b@x.com']\<close> and the comma-separated cell
  \<^verbatim>\<open>a@x.com, b@x.com\<close> give the same two assignees, and an empty cell with the owner
  \<^verbatim>\<open>c@x.com\<close> gives the owner alone.
\<close>

theorem assignees_rule_witness:
  "(\<exists>t. parseRow env_cet 0 (blank_row\<lparr>Assign := CStr pairCell\<rparr>) = Inr t
        \<and> assignees t = [''a@x.com'', ''b@x.com''])
   \<and> (\<exists>t. parseRow env_cet 0 (blank_row\<lparr>Assign := CStr ''a@x.com, b@x.com''\<rparr>) = Inr t
        \<and> assignees t = [''a@x.com'', ''b@x.com''])
   \<and> (\<exists>t. parseRow env_cet 0 (blank_row\<lparr>Assign := CStr [], Owner := CStr ''c@x.com''\<rparr>) = Inr t
        \<and> assignees t = [''c@x.com''])"
proof -
  let ?r1 = "blank_row\<lparr>Assign := CStr pairCell\<rparr>"
  let ?r2 = "blank_row\<lparr>Assign := CStr ''a@x.com, b@x.com''\<rparr>"
  let ?r3 = "blank_row\<lparr>Assign := CStr [], Owner := CStr ''c@x.com''\<rparr>"
  have c1: "cleanAssignees env_cet (rawAssignees env_cet (Assign ?r1))
              = Inr [''a@x.com'', ''b@x.com'']"
    by code_simp
  have c2: "cleanAssignees env_cet (rawAssignees env_cet (Assign ?r2))
              = Inr [''a@x.com'', ''b@x.com'']"
    by code_simp
  have c3: "cleanAssignees env_cet (rawAssignees env_cet (Assign ?r3)) = Inr []"
    by code_simp
  have o: "Owner ?r1 = CUndefined" "Owner ?r2 = CUndefined" "Owner ?r3 = CStr ''c@x.com''"
    by (simp_all add: blank_row_def)
  obtain t1 where t1: "parseRow env_cet 0 ?r1 = Inr t1"
    using parseRow_total [of env_cet ?r1] c1 by (auto simp: parseAssignees_def)
  obtain t2 where t2: "parseRow env_cet 0 ?r2 = Inr t2"
    using parseRow_total [of env_cet ?r2] c2 by (auto simp: parseAssignees_def)
  obtain t3 where t3: "parseRow env_cet 0 ?r3 = Inr t3"
    using parseRow_total [of env_cet ?r3] c3 by (auto simp: parseAssignees_def)
  have "assignees t1 = [''a@x.com'', ''b@x.com'']"
    using assignees_rule [OF t1] unfolding c1 o by auto
  moreover have "assignees t2 = [''a@x.com'', ''b@x.com'']"
    using assignees_rule [OF t2] unfolding c2 o by auto
  moreover have "assignees t3 = [''c@x.com'']"
    using assignees_rule [OF t3] unfolding c3 o by auto
  ultimately show ?thesis
    using t1 t2 t3 by blast
qed

text \<open>
  The claim as stated fails: an owner with surrounding blanks and an array element with
  surrounding blanks become assignees that are not trimmed, and an owner that is a single
  blank becomes an assignee that is white space only.
\<close>

theorem assignees_rule_counterexample:
  "map_sum id assignees (parseRow env_cet 0 (blank_row\<lparr>Owner := CStr '' bob ''\<rparr>))
     = Inr ['' bob '']
   \<and> trim '' bob '' \<noteq> '' bob ''
   \<and> map_sum id assignees (parseRow env_cet 0 (blank_row\<lparr>Assign := CArr [CStr '' a@x.com '']\<rparr>))
     = Inr ['' a@x.com '']
   \<and> trim '' a@x.com '' \<noteq> '' a@x.com ''
   \<and> map_sum id assignees (parseRow env_cet 0 (blank_row\<lparr>Owner := CStr '' ''\<rparr>)) = Inr ['' '']
   \<and> trim '' '' = []"
  by code_simp

subsection \<open>Agent rollup\<close>

lemma map_modify_keys: "map fst (map_modify k f m) = map fst m"
  by (induction m) auto

lemma map_of_modify:
  "map_of (map_modify k f m) k' = (if k' = k then map_option f (map_of m k) else map_of m k')"
  by (induction m) auto

lemma trim_Nil: "trim [] = []"
  by (simp add: trim_def)

lemma recordAgent_skip: "trim a = [] \<Longrightarrow> recordAgent t m a = m"
  by (simp add: recordAgent_def)

lemma recordAgent_add:
  assumes "trim a \<noteq> []"
  shows "recordAgent t m a =
           map_modify (trim a) (addTicket t)
             (if map_has m (trim a) then m else m @ [(trim a, newStats)])"
proof -
  have "a \<noteq> []"
    using assms trim_Nil by auto
  with assms show ?thesis
    by (simp add: recordAgent_def Let_def)
qed

lemma recordAgent_keys:
  "map fst (recordAgent t m a) =
     (if trim a = [] \<or> trim a \<in> set (map fst m) then map fst m else map fst m @ [trim a])"
  by (cases "trim a = []")
    (simp_all add: recordAgent_skip recordAgent_add map_modify_keys map_has_def)

lemma recordAgent_stats:
  "getStats (recordAgent t m a) k =
     (if trim a = k \<and> k \<noteq> [] then addTicket t (getStats m k) else getStats m k)"
proof (cases "trim a = []")
  case True
  then show ?thesis
    by (auto simp: recordAgent_skip)
next
  case False
  show ?thesis
  proof (cases "map_of m (trim a)")
    case None
    then have "\<not> map_has m (trim a)"
      by (simp add: map_has_def map_of_eq_None_iff)
    with False None show ?thesis
      by (auto simp: recordAgent_add getStats_def map_of_modify map_add_def
          split: option.splits)
  next
    case (Some st)
    then have "map_has m (trim a)"
      by (auto simp: map_has_def dest: map_of_SomeD intro: rev_image_eqI)
    with False Some show ?thesis
      by (simp add: recordAgent_add getStats_def map_of_modify)
  qed
qed

lemma addAll_simps:
  "addAll st [] = st" "addAll st (t # ts) = addAll (addTicket t st) ts"
  "addAll st (ts @ us) = addAll (addAll st ts) us"
  by (simp_all add: addAll_def)

lemma recordTicket_stats:
  "getStats (foldl (recordAgent t) m as) k =
     (if k = [] then getStats m k
      else addAll (getStats m k) (map (\<lambda>a. t) (filter (\<lambda>a. trim a = k) as)))"
proof (induction as arbitrary: m)
  case Nil
  show ?case by (simp add: addAll_simps)
next
  case (Cons a as)
  show ?case
    by (simp add: Cons.IH recordAgent_stats addAll_simps)
qed

lemma recordTicket_keys:
  "set (map fst (foldl (recordAgent t) m as)) =
     set (map fst m) \<union> ({trim a |a. a \<in> set as} - {[]})"
proof (induction as arbitrary: m)
  case Nil
  show ?case by simp
next
  case (Cons a as)
  have "set (map fst (recordAgent t m a)) = set (map fst m) \<union> ({trim a} - {[]})"
    by (auto simp: recordAgent_keys)
  then show ?case
    unfolding foldl_Cons Cons.IH by auto
qed

lemma recordTicket_distinct:
  "distinct (map fst m) \<Longrightarrow> distinct (map fst (foldl (recordAgent t) m as))"
proof (induction as arbitrary: m)
  case Nil
  then show ?case by simp
next
  case (Cons a as)
  from Cons.prems have "distinct (map fst (recordAgent t m a))"
    by (simp add: recordAgent_keys)
  then show ?case
    unfolding foldl_Cons by (rule Cons.IH)
qed

lemma ticketsOf_simps:
  "ticketsOf [] k = []"
  "ticketsOf (t # ts) k = map (\<lambda>a. t) (filter (\<lambda>a. trim a = k) (assignees t)) @ ticketsOf ts k"
  by (simp_all add: ticketsOf_def)

lemma rollup_stats:
  "getStats (foldl recordTicket m ts) k =
     (if k = [] then getStats m k else addAll (getStats m k) (ticketsOf ts k))"
proof (induction ts arbitrary: m)
  case Nil
  show ?case by (simp add: ticketsOf_simps addAll_simps)
next
  case (Cons t ts)
  have "getStats (foldl recordTicket (recordTicket m t) ts) k =
          (if k = [] then getStats (recordTicket m t) k
           else addAll (getStats (recordTicket m t) k) (ticketsOf ts k))"
    by (rule Cons.IH)
  moreover have "getStats (recordTicket m t) k =
          (if k = [] then getStats m k
           else addAll (getStats m k) (map (\<lambda>a. t) (filter (\<lambda>a. trim a = k) (assignees t))))"
    unfolding recordTicket_def by (rule recordTicket_stats)
  ultimately show ?case
    by (cases "k = []") (simp_all add: ticketsOf_simps addAll_simps)
qed

lemma rollup_keys:
  "set (map fst (foldl recordTicket m ts)) =
     set (map fst m) \<union> ({trim a |t a. t \<in> set ts \<and> a \<in> set (assignees t)} - {[]})"
proof (induction ts arbitrary: m)
  case Nil
  show ?case by simp
next
  case (Cons t ts)
  have "set (map fst (foldl recordTicket (recordTicket m t) ts)) =
          set (map fst (recordTicket m t))
          \<union> ({trim a |u a. u \<in> set ts \<and> a \<in> set (assignees u)} - {[]})"
    by (rule Cons.IH)
  moreover have "set (map fst (recordTicket m t)) =
          set (map fst m) \<union> ({trim a |a. a \<in> set (assignees t)} - {[]})"
    unfolding recordTicket_def by (rule recordTicket_keys)
  ultimately show ?case
    unfolding foldl_Cons by auto
qed

lemma rollup_distinct:
  "distinct (map fst m) \<Longrightarrow> distinct (map fst (foldl recordTicket m ts))"
proof (induction ts arbitrary: m)
  case Nil
  then show ?case by simp
next
  case (Cons t ts)
  from Cons.prems have "distinct (map fst (recordTicket m t))"
    unfolding recordTicket_def by (rule recordTicket_distinct)
  then show ?case
    unfolding foldl_Cons by (rule Cons.IH)
qed

lemma js_sum_snoc: "js_sum (xs @ [x]) = js_add (js_sum xs) x"
  by (simp add: js_sum_def)

lemma addAll_summary:
  "addAll newStats occ =
     \<lparr> total = length occ,
       ratingSum = js_sum (map rating (filter isClosed occ)),
       timeSum = js_sum (map resolutionTimeHours (filter isClosed occ)),
       resolvedCount = length (filter isClosed occ),
       active = length (filter (\<lambda>t. \<not> isClosed t) occ) \<rparr>"
proof (induction occ rule: rev_induct)
  case Nil
  show ?case
    by (simp add: addAll_simps newStats_def js_sum_def)
next
  case (snoc t occ)
  show ?case
    by (simp add: addAll_simps snoc.IH addTicket_def isClosed_def js_sum_snoc)
qed

lemma toMetrics_summary:
  assumes "st = addAll newStats occ"
  shows "toMetrics (k, st) =
           \<lparr> email = k,
             totalTickets = length occ,
             avgRating = js_mean (map rating (filter isClosed occ)),
             avgResolutionHours = js_mean (map resolutionTimeHours (filter isClosed occ)),
             activeTickets = length (filter (\<lambda>t. \<not> isClosed t) occ) \<rparr>"
  unfolding assms addAll_summary
  by (simp add: toMetrics_def js_mean_def)

lemma rollup_entry:
  assumes "(k, st) \<in> set (foldl recordTicket [] tickets)"
  shows "k \<noteq> [] \<and> st = addAll newStats (ticketsOf tickets k)"
proof -
  let ?M = "foldl recordTicket [] tickets"
  have "k \<in> set (map fst ?M)"
    using assms by (auto intro: rev_image_eqI)
  then have k: "k \<noteq> []"
    unfolding rollup_keys by simp
  have "distinct (map fst ?M)"
    by (rule rollup_distinct) simp
  from this assms have "map_of ?M k = Some st"
    by (rule map_of_is_SomeI)
  then have st: "getStats ?M k = st"
    by (simp add: getStats_def)
  have "getStats ?M k = addAll (getStats [] k) (ticketsOf tickets k)"
    using k by (simp add: rollup_stats)
  moreover have "getStats [] k = newStats"
    by (simp add: getStats_def)
  ultimately have "st = addAll newStats (ticketsOf tickets k)"
    using st by simp
  with k show ?thesis
    by simp
qed

lemma rollup_filter:
  "filter (\<lambda>kv. fst kv \<noteq> []) (foldl recordTicket [] tickets) = foldl recordTicket [] tickets"
  using rollup_entry by (auto simp: filter_id_conv)

lemma metrics_emails:
  "map email (map toMetrics m) = map fst m"
  by (induction m) (auto simp: toMetrics_def)

text \<open>
  Claim C9, as amended. The rollup has exactly one entry for each string that is the
  trimmed form of some assignee of some ticket and is not empty: assignees that differ only
  in surrounding white space are counted under one agent. For each entry, with the agent's
  tickets being one occurrence of a ticket per assignee of it that trims to the agent's
  name, \<open>totalTickets\<close> is their number, \<open>activeTickets\<close> the number of those whose status
  is not \<open>Closed\<close>, and \<open>avgRating\<close> and \<open>avgResolutionHours\<close> the means of the rating and of
  the resolution time over those whose status is \<open>Closed\<close> (0 when there are none). The
  entries are in descending order of \<open>totalTickets\<close>.
\<close>

theorem agent_rollup:
  "distinct (map email (calculateAgentMetrics tickets))
   \<and> set (map email (calculateAgentMetrics tickets)) =
       {trim a |t a. t \<in> set tickets \<and> a \<in> set (assignees t)} - {[]}
   \<and> (\<forall>e \<in> set (calculateAgentMetrics tickets).
         totalTickets e = length (ticketsOf tickets (email e))
         \<and> activeTickets e = length (filter (\<lambda>t. \<not> isClosed t) (ticketsOf tickets (email e)))
         \<and> avgRating e = js_mean (map rating (filter isClosed (ticketsOf tickets (email e))))
         \<and> avgResolutionHours e =
             js_mean (map resolutionTimeHours (filter isClosed (ticketsOf tickets (email e)))))
   \<and> sorted_wrt (\<lambda>a b. totalTickets b \<le> totalTickets a) (calculateAgentMetrics tickets)"
proof -
  let ?M = "foldl recordTicket [] tickets"
  let ?key = "\<lambda>a. - int (totalTickets a)"
  have ms: "calculateAgentMetrics tickets = sort_key ?key (map toMetrics ?M)"
    by (simp add: calculateAgentMetrics_def rollup_filter)
  have "mset (calculateAgentMetrics tickets) = mset (map toMetrics ?M)"
    unfolding ms by (rule mset_sort)
  then have "mset (map email (calculateAgentMetrics tickets))
               = mset (map email (map toMetrics ?M))"
    by (simp only: mset_map)
  then have perm: "mset (map email (calculateAgentMetrics tickets)) = mset (map fst ?M)"
    by (simp only: metrics_emails)
  have "distinct (map fst ?M)"
    by (rule rollup_distinct) simp
  with perm have dist: "distinct (map email (calculateAgentMetrics tickets))"
    using mset_eq_imp_distinct_iff by blast
  have "set (map email (calculateAgentMetrics tickets)) = set (map fst ?M)"
    using perm by (rule mset_eq_setD)
  then have keys: "set (map email (calculateAgentMetrics tickets)) =
      {trim a |t a. t \<in> set tickets \<and> a \<in> set (assignees t)} - {[]}"
    unfolding rollup_keys by simp
  have entries: "totalTickets e = length (ticketsOf tickets (email e))
         \<and> activeTickets e = length (filter (\<lambda>t. \<not> isClosed t) (ticketsOf tickets (email e)))
         \<and> avgRating e = js_mean (map rating (filter isClosed (ticketsOf tickets (email e))))
         \<and> avgResolutionHours e =
             js_mean (map resolutionTimeHours (filter isClosed (ticketsOf tickets (email e))))"
    if "e \<in> set (calculateAgentMetrics tickets)" for e
  proof -
    from that obtain k st where kv: "(k, st) \<in> set ?M" and e: "e = toMetrics (k, st)"
      unfolding ms by auto
    from rollup_entry [OF kv] have "st = addAll newStats (ticketsOf tickets k)"
      by simp
    from toMetrics_summary [OF this, of k] show ?thesis
      unfolding e by simp
  qed
  have "sorted (map ?key (calculateAgentMetrics tickets))"
    unfolding ms by (rule sorted_sort_key)
  then have sorted: "sorted_wrt (\<lambda>a b. totalTickets b \<le> totalTickets a)
      (calculateAgentMetrics tickets)"
    by (simp add: sorted_map)
  from dist keys entries sorted show ?thesis
    by blast
qed

text \<open>
  An agent on three tickets, two closed with ratings 4 and 5 and resolution times 2 and 4
  hours and one open, has 3 tickets, 1 active ticket, an average rating of 4.5 and an
  average resolution time of 3 hours.
\<close>

theorem agent_rollup_witness:
  "\<exists>e. calculateAgentMetrics sample_population = [e]
       \<and> email e = ''x@y.com'' \<and> totalTickets e = 3 \<and> activeTickets e = 1
       \<and> avgRating e = Fin (9 / 2) \<and> avgResolutionHours e = Fin 3"
proof -
  have "map email (calculateAgentMetrics sample_population) = [''x@y.com'']"
    by code_simp
  then obtain e where e: "calculateAgentMetrics sample_population = [e]"
    and mail: "email e = ''x@y.com''"
    by auto
  have occ: "length (ticketsOf sample_population ''x@y.com'') = 3"
    "length (filter (\<lambda>t. \<not> isClosed t) (ticketsOf sample_population ''x@y.com'')) = 1"
    "js_mean (map rating (filter isClosed (ticketsOf sample_population ''x@y.com''))) = Fin (9 / 2)"
    "js_mean (map resolutionTimeHours
       (filter isClosed (ticketsOf sample_population ''x@y.com''))) = Fin 3"
    by code_simp+
  have "e \<in> set (calculateAgentMetrics sample_population)"
    by (simp add: e)
  with agent_rollup [of sample_population] have
    "totalTickets e = length (ticketsOf sample_population (email e))
     \<and> activeTickets e
         = length (filter (\<lambda>t. \<not> isClosed t) (ticketsOf sample_population (email e)))
     \<and> avgRating e
         = js_mean (map rating (filter isClosed (ticketsOf sample_population (email e))))
     \<and> avgResolutionHours e
         = js_mean (map resolutionTimeHours
             (filter isClosed (ticketsOf sample_population (email e))))"
    by blast
  with e mail occ show ?thesis
    by simp
qed

text \<open>
  The claim as stated fails: the assignees \<open>a\<close> and \<open>a\<close> with a leading blank are two
  distinct non-empty strings, and the rollup has one entry for both, with 2 tickets.
\<close>

theorem agent_rollup_counterexample:
  "map email (calculateAgentMetrics blank_population) = [''a'']
   \<and> map totalTickets (calculateAgentMetrics blank_population) = [2]
   \<and> concat (map assignees blank_population) = [''a'', '' a'']
   \<and> ''a'' \<noteq> '' a''"
  by code_simp

end
